theory Spec2Isabelle
  imports Main "HOL-Library.AList"
begin

section \<open>Python values, dictionaries and exceptions\<close>

text \<open>
  cloneEC2.py works on the JSON-shaped values that boto3 returns: strings, booleans,
  integers, None, lists and dictionaries with string keys. A dictionary is an association
  list in insertion order; a key is looked up with \<open>map_of\<close> and assigned with
  \<open>AList.update\<close>, which keeps the position of a key that is already there, as a Python
  dict does.
\<close>

datatype pyval =
    VStr string
  | VBool bool
  | VInt int
  | VNone
  | VList "pyval list"
  | VDict "(string \<times> pyval) list"

type_synonym dict = "(string \<times> pyval) list"

text \<open>The exceptions the script can raise; \<open>ClientError\<close> is any error of a provider call.\<close>

datatype error =
    KeyError string
  | TypeError
  | AttributeError
  | IndexError
  | ValueError
  | SyntaxError
  | ClientError string

definition ebind :: "error + 'a \<Rightarrow> ('a \<Rightarrow> error + 'b) \<Rightarrow> error + 'b" where
  "ebind r f = (case r of Inl e \<Rightarrow> Inl e | Inr x \<Rightarrow> f x)"

text \<open>\<open>d[k]\<close> on a dictionary: KeyError when the key is absent.\<close>

definition dict_get :: "dict \<Rightarrow> string \<Rightarrow> error + pyval" where
  "dict_get d k = (case map_of d k of None \<Rightarrow> Inl (KeyError k) | Some v \<Rightarrow> Inr v)"

text \<open>\<open>d[k] = v\<close> on a dictionary.\<close>

definition dict_set :: "dict \<Rightarrow> string \<Rightarrow> pyval \<Rightarrow> dict" where
  "dict_set d k v = AList.update k v d"

text \<open>
  \<open>v[k]\<close> with a string key on any value: only a dictionary can be subscripted by a
  string; a string or a list wants an integer index, the other values are not
  subscriptable (both TypeError).
\<close>

definition py_getitem :: "pyval \<Rightarrow> string \<Rightarrow> error + pyval" where
  "py_getitem v k = (case v of VDict d \<Rightarrow> dict_get d k | _ \<Rightarrow> Inl TypeError)"

text \<open>\<open>v[0]\<close>: IndexError on an empty sequence; a dictionary has no integer key here.\<close>

definition py_getitem0 :: "pyval \<Rightarrow> error + pyval" where
  "py_getitem0 v =
     (case v of
        VList xs \<Rightarrow> (case xs of [] \<Rightarrow> Inl IndexError | x # _ \<Rightarrow> Inr x)
      | VStr s \<Rightarrow> (case s of [] \<Rightarrow> Inl IndexError | c # _ \<Rightarrow> Inr (VStr [c]))
      | VDict d \<Rightarrow> Inl (KeyError ''0'')
      | _ \<Rightarrow> Inl TypeError)"

text \<open>
  \<open>for x in v\<close>: a list gives its elements, a dictionary its keys, a string its
  characters as one-character strings; the other values are not iterable.
\<close>

definition py_iter :: "pyval \<Rightarrow> error + pyval list" where
  "py_iter v =
     (case v of
        VList xs \<Rightarrow> Inr xs
      | VDict d \<Rightarrow> Inr (map (\<lambda>p. VStr (fst p)) d)
      | VStr s \<Rightarrow> Inr (map (\<lambda>c. VStr [c]) s)
      | _ \<Rightarrow> Inl TypeError)"

text \<open>\<open>v.startswith(p)\<close>: only a string has the method.\<close>

definition py_startswith :: "pyval \<Rightarrow> string \<Rightarrow> error + bool" where
  "py_startswith v p =
     (case v of VStr s \<Rightarrow> Inr (take (length p) s = p) | _ \<Rightarrow> Inl AttributeError)"

section \<open>The global variables\<close>

record globals =
  region :: string
  sourceinstance :: string
  sysargv_config :: dict

section \<open>sanitise_instance_config\<close>

text \<open>The loop of lines 100-101: append the GroupId of every security group.\<close>

fun group_ids :: "pyval list \<Rightarrow> pyval list \<Rightarrow> error + pyval list" where
  "group_ids security_groups_list [] = Inr security_groups_list"
| "group_ids security_groups_list (sg # sgs) =
     ebind (py_getitem sg ''GroupId'')
       (\<lambda>gid. group_ids (security_groups_list @ [gid]) sgs)"

definition filter_keys :: "string list" where
  "filter_keys =
     [''ImageId'', ''InstanceType'', ''KeyName'', ''SubnetId'', ''VpcId'',
      ''SecurityGroups'', ''IamInstanceProfile'', ''EbsOptimized'', ''Tags'']"

definition meta_tags :: "globals \<Rightarrow> pyval list" where
  "meta_tags g =
     [VDict [(''Key'', VStr ''CloneMethod''), (''Value'', VStr ''cloneEC2.py'')],
      VDict [(''Key'', VStr ''CloneSource''), (''Value'', VStr (sourceinstance g))]]"

text \<open>
  The loop of lines 138-140: the list stored under Tags grows by every source tag whose
  key does not start with aws:.
\<close>

fun append_tags :: "pyval list \<Rightarrow> pyval list \<Rightarrow> error + pyval list" where
  "append_tags tags [] = Inr tags"
| "append_tags tags (tag # source_tags) =
     ebind (py_getitem tag ''Key'') (\<lambda>k.
     ebind (py_startswith k ''aws:'') (\<lambda>reserved.
       if \<not> reserved then append_tags (tags @ [tag]) source_tags
       else append_tags tags source_tags))"

text \<open>The loop of lines 147-148: copy the retained keys into the new dictionary.\<close>

fun project_keys :: "dict \<Rightarrow> string list \<Rightarrow> dict \<Rightarrow> error + dict" where
  "project_keys source_config [] filtered_config = Inr filtered_config"
| "project_keys source_config (key # keys) filtered_config =
     ebind (dict_get source_config key)
       (\<lambda>v. project_keys source_config keys (dict_set filtered_config key v))"

text \<open>
  The function assigns into the dictionary it is given, so the model returns both the
  filtered dictionary and the dictionary that the caller's \<open>source_config\<close> has become.
  An exception leaves the script (nothing catches it), so no state is returned then.
  Subscripting \<open>source_config\<close> on line 99 raises TypeError unless it is a dictionary.
\<close>

definition sanitise_instance_config :: "globals \<Rightarrow> pyval \<Rightarrow> error + (dict \<times> dict)" where
  "sanitise_instance_config g source_config =
     (case source_config of
        VDict sc0 \<Rightarrow>
          ebind (dict_get sc0 ''SecurityGroups'') (\<lambda>security_groups.
          ebind (py_iter security_groups) (\<lambda>sgs.
          ebind (group_ids [] sgs) (\<lambda>security_groups_list.
          let sc1 = dict_set sc0 ''SecurityGroups'' (VList security_groups_list) in
          ebind (if map_of sc1 ''IamInstanceProfile'' \<noteq> None
                 then ebind (dict_get sc1 ''IamInstanceProfile'') (\<lambda>profile.
                      ebind (py_getitem profile ''Arn'') (\<lambda>arn.
                        Inr (dict_set sc1 ''IamInstanceProfile'' arn)))
                 else Inr (dict_set sc1 ''IamInstanceProfile'' (VStr ''''))) (\<lambda>sc2.
          ebind (if map_of sc2 ''Tags'' \<noteq> None
                 then ebind (dict_get sc2 ''Tags'') (\<lambda>source_tags.
                      ebind (py_iter source_tags) (\<lambda>ts.
                      ebind (append_tags (meta_tags g) ts) (\<lambda>tags.
                        Inr (dict_set sc2 ''Tags'' (VList tags)))))
                 else Inr (dict_set sc2 ''Tags'' (VList (meta_tags g)))) (\<lambda>sc3.
          ebind (project_keys sc3 filter_keys []) (\<lambda>filtered_config.
            Inr (filtered_config, sc3)))))))
      | _ \<Rightarrow> Inl TypeError)"

section \<open>modify_instance_config and the merge of main\<close>

text \<open>\<open>{**a, **b}\<close>: the entries of \<open>a\<close>, overwritten and extended by those of \<open>b\<close>.\<close>

definition dict_merge :: "dict \<Rightarrow> dict \<Rightarrow> dict" where
  "dict_merge a b = fold (\<lambda>kv d. dict_set d (fst kv) (snd kv)) b a"

text \<open>
  The keyword arguments arrive as a dictionary. A keyword named like the positional
  parameter \<open>source_config\<close> makes the call itself fail with TypeError (the parameter
  would get two values).
\<close>

definition modify_instance_config :: "dict \<Rightarrow> dict \<Rightarrow> error + dict" where
  "modify_instance_config source_config kwargs =
     (if map_of kwargs ''source_config'' \<noteq> None then Inl TypeError
      else
        let append_config = fold (\<lambda>kv d. dict_set d (fst kv) (snd kv)) kwargs [];
            new_config = dict_merge source_config append_config
        in Inr new_config)"

text \<open>Line 222: \<open>{'ImageId': ami, **sysargv_config}\<close>.\<close>

definition custom_config :: "globals \<Rightarrow> pyval \<Rightarrow> dict" where
  "custom_config g ami = dict_merge [(''ImageId'', ami)] (sysargv_config g)"

text \<open>Lines 222-223: the configuration that main hands to run_instance.\<close>

definition effective_config :: "globals \<Rightarrow> pyval \<Rightarrow> dict \<Rightarrow> error + dict" where
  "effective_config g ami sanitised_source_config =
     modify_instance_config sanitised_source_config (custom_config g ami)"

section \<open>run_instance: the launch request\<close>

text \<open>
  The keyword arguments of \<open>client.run_instances\<close>, evaluated in the order written; the
  first key missing from \<open>config\<close> raises KeyError.
\<close>

definition run_instances_kwargs :: "dict \<Rightarrow> error + dict" where
  "run_instances_kwargs config =
     ebind (dict_get config ''ImageId'') (\<lambda>image_id.
     ebind (dict_get config ''InstanceType'') (\<lambda>instance_type.
     ebind (dict_get config ''KeyName'') (\<lambda>key_name.
     ebind (dict_get config ''SubnetId'') (\<lambda>subnet_id.
     ebind (dict_get config ''SecurityGroups'') (\<lambda>security_groups.
     ebind (dict_get config ''EbsOptimized'') (\<lambda>ebs_optimized.
     ebind (dict_get config ''IamInstanceProfile'') (\<lambda>profile.
     ebind (dict_get config ''Tags'') (\<lambda>tags.
       Inr [(''ImageId'', image_id),
            (''InstanceType'', instance_type),
            (''KeyName'', key_name),
            (''SubnetId'', subnet_id),
            (''SecurityGroupIds'', security_groups),
            (''EbsOptimized'', ebs_optimized),
            (''IamInstanceProfile'', VDict [(''Arn'', profile)]),
            (''TagSpecifications'',
               VList [VDict [(''ResourceType'', VStr ''instance''), (''Tags'', tags)]]),
            (''MinCount'', VInt 1),
            (''MaxCount'', VInt 1)]))))))))"

definition launch_keys :: "string set" where
  "launch_keys =
     {''ImageId'', ''InstanceType'', ''KeyName'', ''SubnetId'', ''SecurityGroups'',
      ''EbsOptimized'', ''IamInstanceProfile'', ''Tags''}"

section \<open>The provider, the trace of a run, and programs with effects\<close>

text \<open>
  The provider is outside the script: each boto3 call is answered by a response or a
  \<open>ClientError\<close>, given by the environment as a function of the region and the keyword
  arguments; the answer to a status query may also depend on how many queries came
  before. \<open>random_choice i\<close> is the i-th draw of \<open>random.choice\<close>, an index into the
  letters.
\<close>

record env =
  create_image_response :: "string \<Rightarrow> dict \<Rightarrow> error + pyval"
  describe_images_response :: "nat \<Rightarrow> string \<Rightarrow> dict \<Rightarrow> error + pyval"
  describe_instances_response :: "string \<Rightarrow> dict \<Rightarrow> error + pyval"
  run_instances_response :: "string \<Rightarrow> dict \<Rightarrow> error + pyval"
  random_choice :: "nat \<Rightarrow> nat"

text \<open>What a run does to the world, in order: provider calls, sleeps and printed lines.\<close>

datatype event =
    EvCreateImage string dict
  | EvDescribeImages string dict
  | EvDescribeInstances string dict
  | EvRunInstances string dict
  | EvSleep nat
  | EvPrint string
  | EvPrintDict dict

record world =
  trace :: "event list"
  polls :: nat

text \<open>
  A program takes the world and returns it changed, with \<open>Some (Inr x)\<close> when it
  returned \<open>x\<close>, \<open>Some (Inl e)\<close> when it raised \<open>e\<close>, and \<open>None\<close> when it is still
  running after the given number of loop iterations.
\<close>

type_synonym 'a prog = "world \<Rightarrow> (error + 'a) option \<times> world"

definition pbind :: "'a prog \<Rightarrow> ('a \<Rightarrow> 'b prog) \<Rightarrow> 'b prog" where
  "pbind m f = (\<lambda>w. case m w of
                      (None, w') \<Rightarrow> (None, w')
                    | (Some (Inl e), w') \<Rightarrow> (Some (Inl e), w')
                    | (Some (Inr x), w') \<Rightarrow> f x w')"

definition plift :: "error + 'a \<Rightarrow> 'a prog" where
  "plift r = (\<lambda>w. (Some r, w))"

definition emit :: "event \<Rightarrow> unit prog" where
  "emit ev = (\<lambda>w. (Some (Inr ()), w\<lparr>trace := trace w @ [ev]\<rparr>))"

text \<open>\<open>'literal' + v\<close>: TypeError unless \<open>v\<close> is a string.\<close>

definition py_add_str :: "string \<Rightarrow> pyval \<Rightarrow> error + string" where
  "py_add_str s v = (case v of VStr t \<Rightarrow> Inr (s @ t) | _ \<Rightarrow> Inl TypeError)"

definition nl :: string where
  "nl = [CHR 0x0A]"

section \<open>The provider calls\<close>

definition ascii_lowercase :: string where
  "ascii_lowercase = ''abcdefghijklmnopqrstuvwxyz''"

definition create_image :: "env \<Rightarrow> globals \<Rightarrow> string \<Rightarrow> pyval prog" where
  "create_image p g instanceid =
     (let letters = ascii_lowercase;
          kwargs = [(''InstanceId'', VStr instanceid),
                    (''Name'', VStr (instanceid @ ''-'' @
                       map (\<lambda>i. letters ! (random_choice p i mod length letters)) [0..<10]))]
      in pbind (emit (EvCreateImage (region g) kwargs)) (\<lambda>_.
         pbind (plift (create_image_response p (region g) kwargs)) (\<lambda>response.
         plift (py_getitem response ''ImageId''))))"

definition image_status :: "env \<Rightarrow> globals \<Rightarrow> pyval \<Rightarrow> pyval prog" where
  "image_status p g ami =
     (\<lambda>w. let kwargs = [(''ImageIds'', VList [ami])] in
        (Some (ebind (describe_images_response p (polls w) (region g) kwargs) (\<lambda>response.
               ebind (py_getitem response ''Images'') (\<lambda>images.
               ebind (py_getitem0 images) (\<lambda>image.
               py_getitem image ''State'')))),
         w\<lparr>trace := trace w @ [EvDescribeImages (region g) kwargs], polls := Suc (polls w)\<rparr>))"

definition get_instance_config :: "env \<Rightarrow> globals \<Rightarrow> string \<Rightarrow> pyval prog" where
  "get_instance_config p g instanceid =
     (let kwargs = [(''InstanceIds'', VList [VStr instanceid])]
      in pbind (emit (EvDescribeInstances (region g) kwargs)) (\<lambda>_.
         plift (ebind (describe_instances_response p (region g) kwargs) (\<lambda>response.
                ebind (py_getitem response ''Reservations'') (\<lambda>reservations.
                ebind (py_getitem0 reservations) (\<lambda>reservation.
                ebind (py_getitem reservation ''Instances'') (\<lambda>instances.
                py_getitem0 instances)))))))"

definition run_instance :: "env \<Rightarrow> globals \<Rightarrow> dict \<Rightarrow> pyval prog" where
  "run_instance p g config =
     pbind (plift (run_instances_kwargs config)) (\<lambda>kwargs.
     pbind (emit (EvRunInstances (region g) kwargs)) (\<lambda>_.
     plift (ebind (run_instances_response p (region g) kwargs) (\<lambda>response.
            ebind (py_getitem response ''Instances'') (\<lambda>instances.
            ebind (py_getitem0 instances) (\<lambda>instance.
            py_getitem instance ''InstanceId''))))))"

section \<open>main\<close>

text \<open>
  The loop of lines 202-205. It has no bound of its own; \<open>fuel\<close> is the number of status
  queries the model follows, and \<open>None\<close> says the loop is still running after them.
\<close>

fun wait_available :: "nat \<Rightarrow> env \<Rightarrow> globals \<Rightarrow> pyval \<Rightarrow> unit prog" where
  "wait_available 0 p g ami = (\<lambda>w. (None, w))"
| "wait_available (Suc fuel) p g ami =
     pbind (image_status p g ami) (\<lambda>state.
       if state \<noteq> VStr ''available'' then
         pbind (emit (EvSleep 5)) (\<lambda>_.
         pbind (emit (EvPrint ''...Still waiting for AMI to become available...'')) (\<lambda>_.
         pbind (emit (EvSleep 5)) (\<lambda>_.
         wait_available fuel p g ami)))
       else plift (Inr ()))"

text \<open>Lines 200-208: wait for the image that was created, and report its state.\<close>

definition main_wait :: "nat \<Rightarrow> env \<Rightarrow> globals \<Rightarrow> pyval \<Rightarrow> pyval prog" where
  "main_wait fuel p g ami =
     pbind (plift (py_add_str (nl @ ''<= Waiting for ('') ami)) (\<lambda>s.
     pbind (emit (EvPrint (s @ '') to become available...''))) (\<lambda>_.
     pbind (wait_available fuel p g ami) (\<lambda>_.
     pbind (plift (py_add_str (nl @ ''<= Image ('') ami)) (\<lambda>s.
     pbind (image_status p g ami) (\<lambda>state.
     pbind (plift (py_add_str (s @ '') status: '') state)) (\<lambda>s.
     pbind (emit (EvPrint s)) (\<lambda>_.
     plift (Inr ami))))))))"

text \<open>Lines 195-211: the image to launch from.\<close>

definition main_image :: "nat \<Rightarrow> env \<Rightarrow> globals \<Rightarrow> pyval prog" where
  "main_image fuel p g =
     (if map_of (sysargv_config g) ''ImageId'' = None then
        pbind (emit (EvPrint (nl @ ''=> ImageId not specified, creating an AMI from EC2 instance (''
                              @ sourceinstance g @ '')''))) (\<lambda>_.
        pbind (create_image p g (sourceinstance g)) (\<lambda>ami.
        main_wait fuel p g ami))
      else
        pbind (plift (dict_get (sysargv_config g) ''ImageId'')) (\<lambda>ami.
        pbind (plift (py_add_str (nl @ ''<= ImageID specified, using ('') ami)) (\<lambda>s.
        pbind (emit (EvPrint (s @ '') to launch new instance.''))) (\<lambda>_.
        plift (Inr ami)))))"

text \<open>Lines 214-228: fetch, sanitise, merge and launch.\<close>

definition main_launch :: "env \<Rightarrow> globals \<Rightarrow> pyval \<Rightarrow> unit prog" where
  "main_launch p g ami =
     pbind (emit (EvPrint (nl @ ''<= Getting source EC2 configuration (''
                           @ sourceinstance g @ '')...''))) (\<lambda>_.
     pbind (get_instance_config p g (sourceinstance g)) (\<lambda>source_config.
     pbind (emit (EvPrint (nl @ ''<= Sanitised source EC2 configuration:''))) (\<lambda>_.
     pbind (plift (sanitise_instance_config g source_config)) (\<lambda>r.
     let sanitised_source_config = fst r in
     pbind (emit (EvPrintDict sanitised_source_config)) (\<lambda>_.
     pbind (emit (EvPrint (nl @ ''<= Modified EC2 configuration:''))) (\<lambda>_.
     pbind (plift (effective_config g ami sanitised_source_config)) (\<lambda>new_config.
     pbind (emit (EvPrintDict new_config)) (\<lambda>_.
     pbind (emit (EvPrint (nl @ ''=> Launching new EC2 instance...''))) (\<lambda>_.
     pbind (run_instance p g new_config) (\<lambda>instanceid.
     pbind (plift (py_add_str (nl @ ''<= New EC2 Insatnce ID: '') instanceid)) (\<lambda>s.
     emit (EvPrint (s @ nl)))))))))))))"

definition main :: "nat \<Rightarrow> env \<Rightarrow> globals \<Rightarrow> unit prog" where
  "main fuel p g = pbind (main_image fuel p g) (\<lambda>ami. main_launch p g ami)"

section \<open>The command line\<close>

text \<open>\<open>arg.split('=')\<close>.\<close>

fun split_eq :: "string \<Rightarrow> string list" where
  "split_eq [] = [[]]"
| "split_eq (c # cs) =
     (if c = CHR ''='' then [] # split_eq cs
      else (case split_eq cs of [] \<Rightarrow> [[c]] | part # parts \<Rightarrow> (c # part) # parts))"

text \<open>
  \<open>dict(arg.split('=') for arg in ...)\<close>: every element must have exactly two parts
  (ValueError otherwise); a key given twice keeps its last value.
\<close>

fun dict_of_args :: "dict \<Rightarrow> string list \<Rightarrow> error + dict" where
  "dict_of_args d [] = Inr d"
| "dict_of_args d (arg # args) =
     (case split_eq arg of
        [k, v] \<Rightarrow> dict_of_args (dict_set d k (VStr v)) args
      | _ \<Rightarrow> Inl ValueError)"

text \<open>Lines 230-242, with \<open>argv\<close> for \<open>sys.argv\<close>.\<close>

definition script :: "nat \<Rightarrow> env \<Rightarrow> string list \<Rightarrow> unit prog" where
  "script fuel p argv =
     (if length argv < 3 then plift (Inl SyntaxError)
      else if length argv > 3 then
        pbind (plift (dict_of_args [] (drop 3 argv))) (\<lambda>cfg.
          main fuel p \<lparr>region = argv ! 1, sourceinstance = argv ! 2, sysargv_config = cfg\<rparr>)
      else
        main fuel p \<lparr>region = argv ! 1, sourceinstance = argv ! 2, sysargv_config = []\<rparr>)"

section \<open>Notions used to state the properties\<close>

text \<open>A tag is reserved when its key is a string that starts with aws:.\<close>

definition reserved_tag :: "pyval \<Rightarrow> bool" where
  "reserved_tag tag =
     (case py_getitem tag ''Key'' of
        Inr (VStr k) \<Rightarrow> take (length ''aws:'') k = ''aws:''
      | _ \<Rightarrow> False)"

definition carried_tags :: "pyval list \<Rightarrow> pyval list" where
  "carried_tags source_tags = filter (\<lambda>tag. \<not> reserved_tag tag) source_tags"

definition has_key :: "string \<Rightarrow> pyval \<Rightarrow> bool" where
  "has_key k tag = (py_getitem tag ''Key'' = Inr (VStr k))"

definition count_key :: "string \<Rightarrow> pyval list \<Rightarrow> nat" where
  "count_key k tags = length (filter (has_key k) tags)"

definition is_str :: "pyval \<Rightarrow> bool" where
  "is_str v = (case v of VStr _ \<Rightarrow> True | _ \<Rightarrow> False)"

definition mutated_keys :: "string set" where
  "mutated_keys = {''SecurityGroups'', ''IamInstanceProfile'', ''Tags''}"

definition required_keys :: "string set" where
  "required_keys =
     {''ImageId'', ''InstanceType'', ''KeyName'', ''SubnetId'', ''VpcId'',
      ''SecurityGroups'', ''EbsOptimized''}"

section \<open>Example inputs\<close>

definition ex_globals :: globals where
  "ex_globals = \<lparr>region = ''eu-west-1'', sourceinstance = ''i-srcA'', sysargv_config = []\<rparr>"

definition ex_tags :: "pyval list" where
  "ex_tags =
     [VDict [(''Key'', VStr ''aws:autoscaling:groupName''), (''Value'', VStr ''foo'')],
      VDict [(''Key'', VStr ''Environment''), (''Value'', VStr ''prod'')]]"

definition ex_groups :: "pyval list" where
  "ex_groups =
     [VDict [(''GroupName'', VStr ''web''), (''GroupId'', VStr ''sg-1'')],
      VDict [(''GroupName'', VStr ''ssh''), (''GroupId'', VStr ''sg-2'')]]"

definition ex_descriptor :: dict where
  "ex_descriptor =
     [(''ImageId'', VStr ''ami-src''),
      (''InstanceType'', VStr ''t3.micro''),
      (''KeyName'', VStr ''ops''),
      (''LaunchTime'', VStr ''2021-06-17''),
      (''SubnetId'', VStr ''subnet-1''),
      (''VpcId'', VStr ''vpc-1''),
      (''SecurityGroups'', VList ex_groups),
      (''IamInstanceProfile'',
         VDict [(''Arn'', VStr ''arn:aws:iam::1:instance-profile/web''), (''Id'', VStr ''AIPA1'')]),
      (''EbsOptimized'', VBool False),
      (''Tags'', VList ex_tags)]"

definition ex_sanitised :: dict where
  "ex_sanitised =
     [(''ImageId'', VStr ''ami-src''),
      (''InstanceType'', VStr ''t3.micro''),
      (''KeyName'', VStr ''ops''),
      (''SubnetId'', VStr ''subnet-1''),
      (''VpcId'', VStr ''vpc-1''),
      (''SecurityGroups'', VList [VStr ''sg-1'', VStr ''sg-2'']),
      (''IamInstanceProfile'', VStr ''arn:aws:iam::1:instance-profile/web''),
      (''EbsOptimized'', VBool False),
      (''Tags'',
         VList [VDict [(''Key'', VStr ''CloneMethod''), (''Value'', VStr ''cloneEC2.py'')],
                VDict [(''Key'', VStr ''CloneSource''), (''Value'', VStr ''i-srcA'')],
                VDict [(''Key'', VStr ''Environment''), (''Value'', VStr ''prod'')]])]"

definition ex_mutated :: dict where
  "ex_mutated =
     [(''ImageId'', VStr ''ami-src''),
      (''InstanceType'', VStr ''t3.micro''),
      (''KeyName'', VStr ''ops''),
      (''LaunchTime'', VStr ''2021-06-17''),
      (''SubnetId'', VStr ''subnet-1''),
      (''VpcId'', VStr ''vpc-1''),
      (''SecurityGroups'', VList [VStr ''sg-1'', VStr ''sg-2'']),
      (''IamInstanceProfile'', VStr ''arn:aws:iam::1:instance-profile/web''),
      (''EbsOptimized'', VBool False),
      (''Tags'',
         VList [VDict [(''Key'', VStr ''CloneMethod''), (''Value'', VStr ''cloneEC2.py'')],
                VDict [(''Key'', VStr ''CloneSource''), (''Value'', VStr ''i-srcA'')],
                VDict [(''Key'', VStr ''Environment''), (''Value'', VStr ''prod'')]])]"

text \<open>The tags of an instance that the script itself launched earlier.\<close>

definition clone_tags :: "pyval list" where
  "clone_tags =
     [VDict [(''Key'', VStr ''CloneMethod''), (''Value'', VStr ''cloneEC2.py'')],
      VDict [(''Key'', VStr ''CloneSource''), (''Value'', VStr ''i-old'')],
      VDict [(''Key'', VStr ''Environment''), (''Value'', VStr ''prod'')]]"

definition clone_descriptor :: dict where
  "clone_descriptor = dict_set ex_descriptor ''Tags'' (VList clone_tags)"

definition sanitised_tags :: "globals \<Rightarrow> pyval \<Rightarrow> pyval option" where
  "sanitised_tags g source_config =
     (case sanitise_instance_config g source_config of
        Inl e \<Rightarrow> None
      | Inr r \<Rightarrow> map_of (fst r) ''Tags'')"

text \<open>The value main launches with under a key, when the merge returns.\<close>

definition effective_value :: "globals \<Rightarrow> pyval \<Rightarrow> dict \<Rightarrow> string \<Rightarrow> pyval option" where
  "effective_value g ami sanitised_source_config k =
     (case effective_config g ami sanitised_source_config of
        Inl e \<Rightarrow> None
      | Inr new_config \<Rightarrow> map_of new_config k)"

definition ex_overrides :: globals where
  "ex_overrides =
     \<lparr>region = ''eu-west-1'', sourceinstance = ''i-srcA'',
      sysargv_config = [(''ImageId'', VStr ''ami-X''), (''SubnetId'', VStr ''subnet-Y'')]\<rparr>"

text \<open>A merged configuration with another VpcId and a key that run_instance does not know.\<close>

definition ex_extra :: dict where
  "ex_extra = dict_set (dict_set ex_sanitised ''VpcId'' (VStr ''vpc-2'')) ''Colour'' (VStr ''red'')"

section \<open>Notions about runs\<close>

text \<open>A run of the script starts with nothing done yet.\<close>

definition start :: world where
  "start = \<lparr>trace = [], polls = 0\<rparr>"

text \<open>
  The values the provider calls return do not depend on what was done before, except for
  the number of earlier status queries: what create_image returns for the source instance,
  what the n-th status query (counted from 0) returns, and what get_instance_config
  returns for the source instance.
\<close>

definition create_image_kwargs :: "env \<Rightarrow> string \<Rightarrow> dict" where
  "create_image_kwargs p instanceid =
     [(''InstanceId'', VStr instanceid),
      (''Name'', VStr (instanceid @ ''-'' @
         map (\<lambda>i. ascii_lowercase ! (random_choice p i mod length ascii_lowercase)) [0..<10]))]"

definition created_image_id :: "env \<Rightarrow> globals \<Rightarrow> (error + pyval) option" where
  "created_image_id p g = fst (create_image p g (sourceinstance g) start)"

definition observed_state :: "env \<Rightarrow> globals \<Rightarrow> pyval \<Rightarrow> nat \<Rightarrow> (error + pyval) option" where
  "observed_state p g ami n = fst (image_status p g ami \<lparr>trace = [], polls = n\<rparr>)"

definition fetched_descriptor :: "env \<Rightarrow> globals \<Rightarrow> (error + pyval) option" where
  "fetched_descriptor p g = fst (get_instance_config p g (sourceinstance g) start)"

fun is_create_image :: "event \<Rightarrow> bool" where
  "is_create_image (EvCreateImage r kwargs) = True"
| "is_create_image _ = False"

fun is_describe_images :: "event \<Rightarrow> bool" where
  "is_describe_images (EvDescribeImages r kwargs) = True"
| "is_describe_images _ = False"

fun is_run_instances :: "event \<Rightarrow> bool" where
  "is_run_instances (EvRunInstances r kwargs) = True"
| "is_run_instances _ = False"

fun is_print_dict :: "event \<Rightarrow> bool" where
  "is_print_dict (EvPrintDict d) = True"
| "is_print_dict _ = False"

text \<open>An event is no launch, or it is a launch from the image \<open>x\<close>.\<close>

fun launch_uses :: "pyval \<Rightarrow> event \<Rightarrow> bool" where
  "launch_uses x (EvRunInstances r kwargs) = (map_of kwargs ''ImageId'' = Some x)"
| "launch_uses x _ = True"

text \<open>One round of the waiting loop whose status query did not say available.\<close>

definition waiting_round :: "globals \<Rightarrow> pyval \<Rightarrow> event list" where
  "waiting_round g ami =
     [EvDescribeImages (region g) [(''ImageIds'', VList [ami])],
      EvSleep 5,
      EvPrint ''...Still waiting for AMI to become available...'',
      EvSleep 5]"

text \<open>Every event a program adds to the trace satisfies \<open>Q\<close>.\<close>

definition emits :: "(event \<Rightarrow> bool) \<Rightarrow> 'a prog \<Rightarrow> bool" where
  "emits Q m = (\<forall>w. \<exists>evs. trace (snd (m w)) = trace w @ evs \<and> list_all Q evs)"

text \<open>The program can return \<open>x\<close>; every value it returns satisfies \<open>R\<close>.\<close>

definition returns :: "'a prog \<Rightarrow> 'a \<Rightarrow> bool" where
  "returns m x = (\<exists>w w'. m w = (Some (Inr x), w'))"

definition yields :: "('a \<Rightarrow> bool) \<Rightarrow> 'a prog \<Rightarrow> bool" where
  "yields R m = (\<forall>x. returns m x \<longrightarrow> R x)"

section \<open>An example provider\<close>

text \<open>
  The image is pending at the first two status queries and available from the third on;
  the instance has the example descriptor.
\<close>

definition ex_env :: env where
  "ex_env =
     \<lparr>create_image_response = (\<lambda>r kwargs. Inr (VDict [(''ImageId'', VStr ''ami-new'')])),
      describe_images_response =
        (\<lambda>n r kwargs.
           Inr (VDict [(''Images'',
                  VList [VDict [(''State'',
                     VStr (if n < 2 then ''pending'' else ''available''))]])])),
      describe_instances_response =
        (\<lambda>r kwargs.
           Inr (VDict [(''Reservations'',
                  VList [VDict [(''Instances'', VList [VDict ex_descriptor])]])])),
      run_instances_response =
        (\<lambda>r kwargs. Inr (VDict [(''Instances'', VList [VDict [(''InstanceId'', VStr ''i-new'')]])])),
      random_choice = (\<lambda>i. i)\<rparr>"

definition ex_states :: "nat \<Rightarrow> pyval" where
  "ex_states n = VStr (if n < 2 then ''pending'' else ''available'')"

text \<open>A descriptor without SubnetId, and a provider that returns it.\<close>

definition ex_no_subnet :: dict where
  "ex_no_subnet = filter (\<lambda>kv. fst kv \<noteq> ''SubnetId'') ex_descriptor"

definition ex_env_no_subnet :: env where
  "ex_env_no_subnet =
     ex_env\<lparr>describe_instances_response :=
        (\<lambda>r kwargs.
           Inr (VDict [(''Reservations'',
                  VList [VDict [(''Instances'', VList [VDict ex_no_subnet])]])]))\<rparr>"

text \<open>The image ids of the launch requests in a trace, in order.\<close>

fun launch_image_ids :: "event list \<Rightarrow> pyval option list" where
  "launch_image_ids [] = []"
| "launch_image_ids (EvRunInstances r kwargs # evs) =
     map_of kwargs ''ImageId'' # launch_image_ids evs"
| "launch_image_ids (ev # evs) = launch_image_ids evs"

section \<open>Sequencing and dictionaries\<close>

lemma ebind_Inr_iff: "ebind r f = Inr y \<longleftrightarrow> (\<exists>x. r = Inr x \<and> f x = Inr y)"
  by (cases r) (simp_all add: ebind_def)

lemma dict_get_Inr_iff: "dict_get d k = Inr v \<longleftrightarrow> map_of d k = Some v"
  by (simp add: dict_get_def split: option.splits)

lemma map_of_dict_set: "map_of (dict_set d k v) k' = (if k' = k then Some v else map_of d k')"
  by (simp add: dict_set_def update_conv')

section \<open>The loops of sanitise_instance_config\<close>

lemma group_ids_Inr:
  "group_ids acc sgs = Inr ids \<Longrightarrow>
     \<exists>gs. ids = acc @ gs \<and> map (\<lambda>sg. py_getitem sg ''GroupId'') sgs = map Inr gs"
proof (induction sgs arbitrary: acc)
  case Nil
  then show ?case by simp
next
  case (Cons sg sgs)
  from Cons.prems obtain gid where g: "py_getitem sg ''GroupId'' = Inr gid"
    and r: "group_ids (acc @ [gid]) sgs = Inr ids"
    by (auto simp: ebind_Inr_iff)
  from Cons.IH [OF r] obtain gs where "ids = (acc @ [gid]) @ gs"
    and "map (\<lambda>sg. py_getitem sg ''GroupId'') sgs = map Inr gs" by blast
  with g show ?case by (intro exI [of _ "gid # gs"]) simp
qed

lemma append_tags_Inr:
  "append_tags acc ts = Inr out \<Longrightarrow> out = acc @ carried_tags ts"
proof (induction ts arbitrary: acc)
  case Nil
  then show ?case by (simp add: carried_tags_def)
next
  case (Cons t ts)
  from Cons.prems obtain k r where k: "py_getitem t ''Key'' = Inr k"
    and s: "py_startswith k ''aws:'' = Inr r"
    and rest: "(if \<not> r then append_tags (acc @ [t]) ts else append_tags acc ts) = Inr out"
    by (auto simp: ebind_Inr_iff)
  from k s have res: "reserved_tag t = r"
    by (auto simp: reserved_tag_def py_startswith_def split: pyval.splits)
  show ?case
  proof (cases r)
    case True
    with rest have "append_tags acc ts = Inr out" by simp
    from Cons.IH [OF this] res True show ?thesis by (simp add: carried_tags_def)
  next
    case False
    with rest have "append_tags (acc @ [t]) ts = Inr out" by simp
    from Cons.IH [OF this] res False show ?thesis by (simp add: carried_tags_def)
  qed
qed

lemma project_keys_Inr:
  "project_keys sc ks fc = Inr out \<Longrightarrow>
     map_of out k = (if k \<in> set ks then map_of sc k else map_of fc k)"
proof (induction ks arbitrary: fc)
  case Nil
  then show ?case by simp
next
  case (Cons a ks)
  from Cons.prems obtain v where v: "map_of sc a = Some v"
    and r: "project_keys sc ks (dict_set fc a v) = Inr out"
    by (auto simp: ebind_Inr_iff dict_get_Inr_iff)
  from Cons.IH [OF r] v show ?case by (auto simp: map_of_dict_set)
qed

lemma project_keys_Inl:
  "k \<in> set ks \<Longrightarrow> map_of sc k = None \<Longrightarrow> \<exists>e. project_keys sc ks fc = Inl e"
proof (induction ks arbitrary: fc)
  case Nil
  then show ?case by simp
next
  case (Cons a ks)
  show ?case
  proof (cases "map_of sc a")
    case None
    then show ?thesis by (simp add: ebind_def dict_get_def)
  next
    case (Some v)
    with Cons.prems have "k \<in> set ks" by auto
    from Cons.IH [OF this Cons.prems(2)] Some show ?thesis
      by (simp add: ebind_def dict_get_def)
  qed
qed

text \<open>What a successful call has computed, step by step.\<close>

lemma sanitise_Inr:
  assumes "sanitise_instance_config g source_config = Inr (fc, sc3)"
  shows "\<exists>sc0 sgv sgs ids iam tags.
     source_config = VDict sc0 \<and>
     map_of sc0 ''SecurityGroups'' = Some sgv \<and> py_iter sgv = Inr sgs \<and>
     group_ids [] sgs = Inr ids \<and>
     (case map_of sc0 ''IamInstanceProfile'' of
        None \<Rightarrow> iam = VStr ''''
      | Some profile \<Rightarrow> py_getitem profile ''Arn'' = Inr iam) \<and>
     (case map_of sc0 ''Tags'' of
        None \<Rightarrow> tags = meta_tags g
      | Some tv \<Rightarrow> \<exists>ts. py_iter tv = Inr ts \<and> append_tags (meta_tags g) ts = Inr tags) \<and>
     sc3 = dict_set (dict_set (dict_set sc0 ''SecurityGroups'' (VList ids))
                       ''IamInstanceProfile'' iam) ''Tags'' (VList tags) \<and>
     project_keys sc3 filter_keys [] = Inr fc"
proof -
  from assms obtain sc0 where sc0: "source_config = VDict sc0"
    by (cases source_config) (simp_all add: sanitise_instance_config_def)
  from assms [unfolded sc0 sanitise_instance_config_def]
  show ?thesis unfolding sc0
    by (auto simp: ebind_Inr_iff dict_get_Inr_iff map_of_dict_set Let_def
             split: if_splits option.splits)
qed

section \<open>The examples, evaluated\<close>

lemmas eval_defs = sanitise_instance_config_def ex_globals_def ex_descriptor_def ex_tags_def
  ex_groups_def ebind_def dict_get_def dict_set_def py_iter_def py_getitem_def
  py_startswith_def meta_tags_def filter_keys_def Let_def

lemma ex_sanitise:
  "sanitise_instance_config ex_globals (VDict ex_descriptor) = Inr (ex_sanitised, ex_mutated)"
  by (simp add: eval_defs ex_sanitised_def ex_mutated_def)

section \<open>Tags\<close>

lemma sanitise_tags_value:
  assumes "sanitise_instance_config g (VDict sc) = Inr (fc, sc')"
  shows "\<exists>tags. map_of fc ''Tags'' = Some (VList tags) \<and>
           (map_of sc ''Tags'' = None \<longrightarrow> tags = meta_tags g) \<and>
           (\<forall>tv. map_of sc ''Tags'' = Some tv \<longrightarrow>
              (\<exists>ts. py_iter tv = Inr ts \<and> tags = meta_tags g @ carried_tags ts))"
proof -
  from sanitise_Inr [OF assms] obtain ids iam tags where
    tg: "case map_of sc ''Tags'' of
           None \<Rightarrow> tags = meta_tags g
         | Some tv \<Rightarrow> \<exists>ts. py_iter tv = Inr ts \<and> append_tags (meta_tags g) ts = Inr tags"
    and sc': "sc' = dict_set (dict_set (dict_set sc ''SecurityGroups'' (VList ids))
                       ''IamInstanceProfile'' iam) ''Tags'' (VList tags)"
    and pr: "project_keys sc' filter_keys [] = Inr fc"
    by auto
  have out: "map_of fc ''Tags'' = Some (VList tags)"
    using project_keys_Inr [OF pr, of "''Tags''"]
    by (simp add: filter_keys_def sc' map_of_dict_set)
  have none: "map_of sc ''Tags'' = None \<Longrightarrow> tags = meta_tags g"
    using tg by simp
  have some: "\<And>tv. map_of sc ''Tags'' = Some tv \<Longrightarrow>
      \<exists>ts. py_iter tv = Inr ts \<and> tags = meta_tags g @ carried_tags ts"
    using tg by (auto dest: append_tags_Inr)
  from out none some show ?thesis by auto
qed



lemma has_key_not_reserved:
  "has_key k t \<Longrightarrow> take (length ''aws:'') k \<noteq> ''aws:'' \<Longrightarrow> \<not> reserved_tag t"
  by (simp add: has_key_def reserved_tag_def)

lemma count_key_carried:
  assumes k: "take (length ''aws:'') k \<noteq> ''aws:''"
  shows "count_key k (carried_tags ts) = count_key k ts"
proof -
  have "filter (has_key k) (filter (\<lambda>t. \<not> reserved_tag t) ts) = filter (has_key k) ts"
    using has_key_not_reserved [OF _ k] by (induction ts) auto
  then show ?thesis by (simp add: count_key_def carried_tags_def)
qed

lemma count_key_append: "count_key k (xs @ ys) = count_key k xs + count_key k ys"
  by (simp add: count_key_def)

lemma count_key_meta_tags:
  "count_key ''CloneMethod'' (meta_tags g) = 1" "count_key ''CloneSource'' (meta_tags g) = 1"
  by (simp_all add: count_key_def has_key_def meta_tags_def py_getitem_def dict_get_def)

text \<open>
  C2 does not hold as stated: a source tag named CloneMethod or CloneSource is
  carried over like any other tag, so the key occurs twice in the result.
\<close>

theorem provenance_tags_duplicated_counterexample:
  "sanitised_tags ex_globals (VDict clone_descriptor) =
     Some (VList (meta_tags ex_globals @ clone_tags)) \<and>
   count_key ''CloneMethod'' (meta_tags ex_globals @ clone_tags) = 2 \<and>
   count_key ''CloneSource'' (meta_tags ex_globals @ clone_tags) = 2"
proof -
  have "sanitised_tags ex_globals (VDict clone_descriptor) =
     Some (VList (meta_tags ex_globals @ clone_tags))"
    by (simp add: sanitised_tags_def clone_descriptor_def clone_tags_def eval_defs)
  moreover have "count_key ''CloneMethod'' (meta_tags ex_globals @ clone_tags) = 2"
    by (simp add: count_key_def has_key_def meta_tags_def clone_tags_def py_getitem_def
        dict_get_def)
  moreover have "count_key ''CloneSource'' (meta_tags ex_globals @ clone_tags) = 2"
    by (simp add: count_key_def has_key_def meta_tags_def clone_tags_def py_getitem_def
        dict_get_def)
  ultimately show ?thesis by simp
qed

text \<open>
  C2, amended. Whenever sanitise_instance_config returns, the two provenance tags are the
  first two entries of the Tags of its result and everything after them is carried over
  from the source. The function adds each provenance tag once and removes no source tag of
  the same name: the result has one more tag with key CloneMethod (and one more with key
  CloneSource) than the source tags have.
\<close>

theorem provenance_tags_first:
  assumes "sanitise_instance_config g (VDict sc) = Inr (fc, sc')"
  shows "\<exists>tags. map_of fc ''Tags'' = Some (VList tags) \<and>
           take 2 tags = meta_tags g \<and>
           (map_of sc ''Tags'' = None \<longrightarrow> drop 2 tags = []) \<and>
           (\<forall>tv. map_of sc ''Tags'' = Some tv \<longrightarrow>
              (\<exists>ts. py_iter tv = Inr ts \<and> drop 2 tags = carried_tags ts \<and>
                    count_key ''CloneMethod'' tags = 1 + count_key ''CloneMethod'' ts \<and>
                    count_key ''CloneSource'' tags = 1 + count_key ''CloneSource'' ts))"
proof -
  from sanitise_tags_value [OF assms] obtain tags where
    out: "map_of fc ''Tags'' = Some (VList tags)"
    and none: "map_of sc ''Tags'' = None \<longrightarrow> tags = meta_tags g"
    and some: "\<forall>tv. map_of sc ''Tags'' = Some tv \<longrightarrow>
      (\<exists>ts. py_iter tv = Inr ts \<and> tags = meta_tags g @ carried_tags ts)"
    by auto
  have len: "length (meta_tags g) = 2" by (simp add: meta_tags_def)
  have cm: "count_key ''CloneMethod'' (meta_tags g @ carried_tags ts) =
              1 + count_key ''CloneMethod'' ts" for ts
    by (simp add: count_key_append count_key_meta_tags count_key_carried)
  have cs: "count_key ''CloneSource'' (meta_tags g @ carried_tags ts) =
              1 + count_key ''CloneSource'' ts" for ts
    by (simp add: count_key_append count_key_meta_tags count_key_carried)
  have "take 2 tags = meta_tags g"
    using none some len by (cases "map_of sc ''Tags''") auto
  moreover have "map_of sc ''Tags'' = None \<longrightarrow> drop 2 tags = []"
    using none len by simp
  moreover have "\<forall>tv. map_of sc ''Tags'' = Some tv \<longrightarrow>
              (\<exists>ts. py_iter tv = Inr ts \<and> drop 2 tags = carried_tags ts \<and>
                    count_key ''CloneMethod'' tags = 1 + count_key ''CloneMethod'' ts \<and>
                    count_key ''CloneSource'' tags = 1 + count_key ''CloneSource'' ts)"
  proof (intro allI impI)
    fix tv assume "map_of sc ''Tags'' = Some tv"
    with some obtain ts where ts: "py_iter tv = Inr ts" "tags = meta_tags g @ carried_tags ts"
      by auto
    with len cm [of ts] cs [of ts]
    show "\<exists>ts. py_iter tv = Inr ts \<and> drop 2 tags = carried_tags ts \<and>
                    count_key ''CloneMethod'' tags = 1 + count_key ''CloneMethod'' ts \<and>
                    count_key ''CloneSource'' tags = 1 + count_key ''CloneSource'' ts"
      by (intro exI [of _ ts]) simp
  qed
  ultimately show ?thesis using out by auto
qed

theorem provenance_tags_first_witness:
  "sanitise_instance_config ex_globals (VDict ex_descriptor) = Inr (ex_sanitised, ex_mutated) \<and>
   (\<exists>tags. map_of ex_sanitised ''Tags'' = Some (VList tags) \<and>
      take 2 tags = meta_tags ex_globals \<and> drop 2 tags = carried_tags ex_tags \<and>
      count_key ''CloneMethod'' tags = 1 + count_key ''CloneMethod'' ex_tags)"
proof -
  have t: "map_of ex_descriptor ''Tags'' = Some (VList ex_tags)"
    by (simp add: ex_descriptor_def)
  from provenance_tags_first [OF ex_sanitise] t
  show ?thesis using ex_sanitise by (fastforce simp: py_iter_def)
qed

section \<open>IamInstanceProfile\<close>



section \<open>SecurityGroups\<close>

lemma size_map_of:
  "map_of d k = Some v \<Longrightarrow> size v < Suc (size_list (size_prod (\<lambda>x. 0) size) d)"
  by (induction d) (auto split: if_splits)

lemma py_getitem_smaller: "py_getitem r k = Inr v \<Longrightarrow> size v < size r"
  by (cases r) (auto simp: py_getitem_def dict_get_Inr_iff dest: size_map_of)

lemma map_eq_Inr_nth:
  "map f xs = map Inr ys \<Longrightarrow> length ys = length xs \<and> (\<forall>i<length xs. f (xs ! i) = Inr (ys ! i))"
proof -
  assume h: "map f xs = map Inr ys"
  then have l: "length ys = length xs" by (metis length_map)
  have "\<forall>i<length xs. f (xs ! i) = Inr (ys ! i)"
  proof (intro allI impI)
    fix i assume i: "i < length xs"
    then have "f (xs ! i) = map f xs ! i" by simp
    also have "\<dots> = map Inr ys ! i" using h by simp
    also have "\<dots> = Inr (ys ! i)" using i l by simp
    finally show "f (xs ! i) = Inr (ys ! i)" .
  qed
  with l show ?thesis by simp
qed

text \<open>
  C8. Whenever sanitise_instance_config returns, the SecurityGroups of its result is a
  list with one entry for each security-group record of the descriptor, in the same
  order: the i-th entry is the GroupId of the i-th record, and it is never the record
  itself. When the group ids of the records are strings, every entry is a string.
\<close>

theorem sanitise_security_groups:
  assumes "sanitise_instance_config g (VDict sc) = Inr (fc, sc')"
  shows "\<exists>sgv records ids.
           map_of sc ''SecurityGroups'' = Some sgv \<and> py_iter sgv = Inr records \<and>
           map_of fc ''SecurityGroups'' = Some (VList ids) \<and>
           length ids = length records \<and>
           (\<forall>i<length records.
              py_getitem (records ! i) ''GroupId'' = Inr (ids ! i) \<and> ids ! i \<noteq> records ! i) \<and>
           ((\<forall>r\<in>set records. \<exists>s. py_getitem r ''GroupId'' = Inr (VStr s)) \<longrightarrow>
              (\<forall>v\<in>set ids. is_str v))"
proof -
  from sanitise_Inr [OF assms] obtain sgv sgs ids iam tags where
    sg: "map_of sc ''SecurityGroups'' = Some sgv" "py_iter sgv = Inr sgs"
        "group_ids [] sgs = Inr ids"
    and sc': "sc' = dict_set (dict_set (dict_set sc ''SecurityGroups'' (VList ids))
                       ''IamInstanceProfile'' iam) ''Tags'' (VList tags)"
    and pr: "project_keys sc' filter_keys [] = Inr fc"
    by auto
  have out: "map_of fc ''SecurityGroups'' = Some (VList ids)"
    using project_keys_Inr [OF pr, of "''SecurityGroups''"]
    by (simp add: filter_keys_def sc' map_of_dict_set)
  from group_ids_Inr [OF sg(3)]
  have m: "map (\<lambda>sg. py_getitem sg ''GroupId'') sgs = map Inr ids" by simp
  from map_eq_Inr_nth [OF m]
  have len: "length ids = length sgs"
    and nth: "\<forall>i<length sgs. py_getitem (sgs ! i) ''GroupId'' = Inr (ids ! i)"
    by simp_all
  have neq: "\<forall>i<length sgs. ids ! i \<noteq> sgs ! i"
  proof (intro allI impI)
    fix i assume "i < length sgs"
    with nth have "py_getitem (sgs ! i) ''GroupId'' = Inr (ids ! i)" by simp
    from py_getitem_smaller [OF this] show "ids ! i \<noteq> sgs ! i" by auto
  qed
  have strs: "(\<forall>r\<in>set sgs. \<exists>s. py_getitem r ''GroupId'' = Inr (VStr s)) \<longrightarrow>
              (\<forall>v\<in>set ids. is_str v)"
  proof (intro impI ballI)
    fix v assume a: "\<forall>r\<in>set sgs. \<exists>s. py_getitem r ''GroupId'' = Inr (VStr s)"
      and v: "v \<in> set ids"
    from v obtain i where i: "i < length ids" "v = ids ! i" by (auto simp: in_set_conv_nth)
    with len nth have "py_getitem (sgs ! i) ''GroupId'' = Inr v" by simp
    moreover from i len a obtain s where "py_getitem (sgs ! i) ''GroupId'' = Inr (VStr s)"
      by (metis nth_mem)
    ultimately show "is_str v" by (auto simp: is_str_def)
  qed
  from sg(1,2) out len nth neq strs show ?thesis by auto
qed

theorem sanitise_security_groups_witness:
  "sanitise_instance_config ex_globals (VDict ex_descriptor) = Inr (ex_sanitised, ex_mutated) \<and>
   map_of ex_descriptor ''SecurityGroups'' = Some (VList ex_groups) \<and>
   map (\<lambda>r. py_getitem r ''GroupId'') ex_groups = [Inr (VStr ''sg-1''), Inr (VStr ''sg-2'')] \<and>
   (\<exists>ids. map_of ex_sanitised ''SecurityGroups'' = Some (VList ids) \<and>
          length ids = length ex_groups \<and> list_all is_str ids)"
proof -
  have d: "map_of ex_descriptor ''SecurityGroups'' = Some (VList ex_groups)"
    by (simp add: ex_descriptor_def)
  have m: "map (\<lambda>r. py_getitem r ''GroupId'') ex_groups =
             [Inr (VStr ''sg-1''), Inr (VStr ''sg-2'')]"
    by (simp add: ex_groups_def py_getitem_def dict_get_def)
  have s: "\<forall>r\<in>set ex_groups. \<exists>s. py_getitem r ''GroupId'' = Inr (VStr s)"
    by (simp add: ex_groups_def py_getitem_def dict_get_def)
  from sanitise_security_groups [OF ex_sanitise] obtain sgv records ids where
    r: "map_of ex_descriptor ''SecurityGroups'' = Some sgv \<and> py_iter sgv = Inr records \<and>
           map_of ex_sanitised ''SecurityGroups'' = Some (VList ids) \<and>
           length ids = length records \<and>
           (\<forall>i<length records.
              py_getitem (records ! i) ''GroupId'' = Inr (ids ! i) \<and> ids ! i \<noteq> records ! i) \<and>
           ((\<forall>r\<in>set records. \<exists>s. py_getitem r ''GroupId'' = Inr (VStr s)) \<longrightarrow>
              (\<forall>v\<in>set ids. is_str v))"
    by (elim exE) (rule that)
  from r d have "records = ex_groups" by (auto simp: py_iter_def)
  with r s have "map_of ex_sanitised ''SecurityGroups'' = Some (VList ids) \<and>
          length ids = length ex_groups \<and> list_all is_str ids"
    by (simp add: list_all_iff)
  then show ?thesis using ex_sanitise d m by auto
qed

section \<open>What happens to the descriptor that was passed in\<close>

text \<open>
  C9 does not hold as stated: the function assigns to three keys of the
  dictionary it is given, so after the call the descriptor no longer holds the
  security-group records.
\<close>

theorem descriptor_mutated_counterexample:
  "sanitise_instance_config ex_globals (VDict ex_descriptor) = Inr (ex_sanitised, ex_mutated) \<and>
   map_of ex_descriptor ''SecurityGroups'' = Some (VList ex_groups) \<and>
   map_of ex_mutated ''SecurityGroups'' = Some (VList [VStr ''sg-1'', VStr ''sg-2'']) \<and>
   ex_mutated \<noteq> ex_descriptor"
proof -
  have "map_of ex_descriptor ''SecurityGroups'' = Some (VList ex_groups)"
    by (simp add: ex_descriptor_def)
  moreover have "map_of ex_mutated ''SecurityGroups'' = Some (VList [VStr ''sg-1'', VStr ''sg-2''])"
    by (simp add: ex_mutated_def)
  moreover have "ex_mutated \<noteq> ex_descriptor"
    by (simp add: ex_mutated_def ex_descriptor_def)
  ultimately show ?thesis using ex_sanitise by simp
qed

text \<open>
  C9, amended. Whenever sanitise_instance_config returns, the descriptor it was given
  holds, under SecurityGroups, IamInstanceProfile and Tags, the sanitised values that the
  result holds; every other key of the descriptor is as it was, and the keys are in the
  order they had, with IamInstanceProfile and Tags added at the end when they were absent.
\<close>

theorem sanitise_descriptor_frame:
  assumes "sanitise_instance_config g (VDict sc) = Inr (fc, sc')"
  shows "(\<forall>k. k \<notin> mutated_keys \<longrightarrow> map_of sc' k = map_of sc k) \<and>
         (\<forall>k\<in>mutated_keys. map_of sc' k = map_of fc k \<and> map_of sc' k \<noteq> None) \<and>
         map fst sc' =
           map fst sc @
           (if ''IamInstanceProfile'' \<in> fst ` set sc then [] else [''IamInstanceProfile'']) @
           (if ''Tags'' \<in> fst ` set sc then [] else [''Tags''])"
proof -
  from sanitise_Inr [OF assms] obtain sgv ids iam tags where
    sg: "map_of sc ''SecurityGroups'' = Some sgv"
    and sc': "sc' = dict_set (dict_set (dict_set sc ''SecurityGroups'' (VList ids))
                       ''IamInstanceProfile'' iam) ''Tags'' (VList tags)"
    and pr: "project_keys sc' filter_keys [] = Inr fc"
    by auto
  have a: "\<forall>k. k \<notin> mutated_keys \<longrightarrow> map_of sc' k = map_of sc k"
    by (simp add: sc' map_of_dict_set mutated_keys_def)
  have b: "\<forall>k\<in>mutated_keys. map_of sc' k = map_of fc k \<and> map_of sc' k \<noteq> None"
    using project_keys_Inr [OF pr]
    by (simp add: filter_keys_def sc' map_of_dict_set mutated_keys_def)
  from sg have "''SecurityGroups'' \<in> fst ` set sc"
    by (metis map_of_eq_None_iff option.distinct(1))
  then have c: "map fst sc' =
           map fst sc @
           (if ''IamInstanceProfile'' \<in> fst ` set sc then [] else [''IamInstanceProfile'']) @
           (if ''Tags'' \<in> fst ` set sc then [] else [''Tags''])"
    by (simp add: sc' dict_set_def update_keys)
  show ?thesis by (rule conjI [OF a conjI [OF b c]])
qed

theorem sanitise_descriptor_frame_witness:
  "sanitise_instance_config ex_globals (VDict ex_descriptor) = Inr (ex_sanitised, ex_mutated) \<and>
   ''LaunchTime'' \<notin> mutated_keys \<and>
   map_of ex_mutated ''LaunchTime'' = map_of ex_descriptor ''LaunchTime'' \<and>
   ''Tags'' \<in> mutated_keys \<and>
   map_of ex_mutated ''Tags'' = map_of ex_sanitised ''Tags''"
proof -
  have "''LaunchTime'' \<notin> mutated_keys" "''Tags'' \<in> mutated_keys"
    by (simp_all add: mutated_keys_def)
  with sanitise_descriptor_frame [OF ex_sanitise] ex_sanitise show ?thesis by auto
qed

section \<open>The merge\<close>

lemma map_of_fold_set:
  "distinct (map fst b) \<Longrightarrow>
     map_of (fold (\<lambda>kv d. dict_set d (fst kv) (snd kv)) b a) k =
       (case map_of b k of Some v \<Rightarrow> Some v | None \<Rightarrow> map_of a k)"
proof (induction b arbitrary: a)
  case Nil
  then show ?case by simp
next
  case (Cons p b)
  from Cons.prems have d: "distinct (map fst b)" and n: "fst p \<notin> fst ` set b" by auto
  from n have none: "map_of b (fst p) = None" by (simp add: map_of_eq_None_iff)
  show ?case
  proof (cases "k = fst p")
    case True
    with Cons.IH [OF d, of "dict_set a (fst p) (snd p)"] none show ?thesis
      by (cases p) (simp add: map_of_dict_set)
  next
    case False
    with Cons.IH [OF d, of "dict_set a (fst p) (snd p)"] show ?thesis
      by (cases p) (auto simp: map_of_dict_set split: option.splits)
  qed
qed

lemma distinct_fold_set:
  "distinct (map fst a) \<Longrightarrow>
     distinct (map fst (fold (\<lambda>kv d. dict_set d (fst kv) (snd kv)) b a))"
  by (induction b arbitrary: a) (simp_all add: dict_set_def distinct_update)

lemma map_of_dict_merge:
  "distinct (map fst b) \<Longrightarrow>
     map_of (dict_merge a b) k = (case map_of b k of Some v \<Rightarrow> Some v | None \<Rightarrow> map_of a k)"
  by (simp add: dict_merge_def map_of_fold_set)

lemma map_of_custom_config:
  assumes "distinct (map fst (sysargv_config g))"
  shows "map_of (custom_config g ami) k =
           (case map_of (sysargv_config g) k of
              Some v \<Rightarrow> Some v
            | None \<Rightarrow> if k = ''ImageId'' then Some ami else None)"
  using assms by (auto simp: custom_config_def map_of_dict_merge split: option.splits)

lemma distinct_custom_config:
  "distinct (map fst (custom_config g ami))"
  by (simp add: custom_config_def dict_merge_def distinct_fold_set)

lemma map_of_modify_instance_config:
  assumes "distinct (map fst kwargs)" and "map_of kwargs ''source_config'' = None"
  shows "\<exists>c. modify_instance_config source_config kwargs = Inr c \<and>
           (\<forall>k. map_of c k =
                  (case map_of kwargs k of Some v \<Rightarrow> Some v | None \<Rightarrow> map_of source_config k))"
proof -
  let ?append = "fold (\<lambda>kv d. dict_set d (fst kv) (snd kv)) kwargs []"
  have a: "map_of ?append k = map_of kwargs k" for k
    using map_of_fold_set [OF assms(1), of "[]" k] by (simp split: option.splits)
  have d: "distinct (map fst ?append)" by (simp add: distinct_fold_set)
  have "map_of (dict_merge source_config ?append) k =
          (case map_of kwargs k of Some v \<Rightarrow> Some v | None \<Rightarrow> map_of source_config k)" for k
    using map_of_dict_merge [OF d, of source_config k] by (simp add: a)
  with assms(2) show ?thesis by (simp add: modify_instance_config_def Let_def)
qed

text \<open>
  C3 does not hold as stated, because of the image id: with no ImageId override the key
  is present only in the sanitised configuration, and yet the effective value is the id
  of the image that was created, not the sanitised one.
\<close>

theorem merge_image_id_counterexample:
  "map_of (sysargv_config ex_globals) ''ImageId'' = None \<and>
   map_of ex_sanitised ''ImageId'' = Some (VStr ''ami-src'') \<and>
   effective_value ex_globals (VStr ''ami-new'') ex_sanitised ''ImageId'' = Some (VStr ''ami-new'')"
  by (simp add: ex_globals_def ex_sanitised_def effective_value_def effective_config_def
      custom_config_def modify_instance_config_def dict_merge_def dict_set_def Let_def)

text \<open>
  C3, amended. The merge is right-biased. When no override is named source_config, main
  builds an effective configuration in which every key of the override map has the
  override's value (so an ImageId override wins over both the sanitised value and the
  image id that main resolved), ImageId without an override has the resolved image id,
  and every other key has the sanitised value. An override named source_config makes the
  call of modify_instance_config fail.
\<close>

theorem effective_config_right_biased:
  assumes "distinct (map fst (sysargv_config g))"
  shows "(map_of (sysargv_config g) ''source_config'' \<noteq> None \<longrightarrow>
            effective_config g ami sanitised = Inl TypeError) \<and>
         (map_of (sysargv_config g) ''source_config'' = None \<longrightarrow>
            (\<exists>c. effective_config g ami sanitised = Inr c \<and>
               (\<forall>k. map_of c k =
                  (case map_of (sysargv_config g) k of
                     Some v \<Rightarrow> Some v
                   | None \<Rightarrow> if k = ''ImageId'' then Some ami else map_of sanitised k))))"
proof (intro conjI impI)
  assume "map_of (sysargv_config g) ''source_config'' \<noteq> None"
  then have "map_of (custom_config g ami) ''source_config'' \<noteq> None"
    by (auto simp: map_of_custom_config [OF assms])
  then show "effective_config g ami sanitised = Inl TypeError"
    by (simp add: effective_config_def modify_instance_config_def)
next
  assume "map_of (sysargv_config g) ''source_config'' = None"
  then have n: "map_of (custom_config g ami) ''source_config'' = None"
    by (simp add: map_of_custom_config [OF assms])
  from map_of_modify_instance_config [OF distinct_custom_config n, of sanitised]
  obtain c where c: "modify_instance_config sanitised (custom_config g ami) = Inr c"
    and v: "\<forall>k. map_of c k =
                  (case map_of (custom_config g ami) k of
                     Some v \<Rightarrow> Some v | None \<Rightarrow> map_of sanitised k)"
    by auto
  have "map_of c k =
          (case map_of (sysargv_config g) k of
             Some v \<Rightarrow> Some v
           | None \<Rightarrow> if k = ''ImageId'' then Some ami else map_of sanitised k)" for k
    using v by (simp add: map_of_custom_config [OF assms] split: option.splits)
  with c show "\<exists>c. effective_config g ami sanitised = Inr c \<and>
               (\<forall>k. map_of c k =
                  (case map_of (sysargv_config g) k of
                     Some v \<Rightarrow> Some v
                   | None \<Rightarrow> if k = ''ImageId'' then Some ami else map_of sanitised k))"
    by (simp add: effective_config_def)
qed

theorem effective_config_right_biased_witness:
  "distinct (map fst (sysargv_config ex_overrides)) \<and>
   map_of (sysargv_config ex_overrides) ''source_config'' = None \<and>
   (\<exists>c. effective_config ex_overrides (VStr ''ami-new'') ex_sanitised = Inr c \<and>
        map_of c ''ImageId'' = Some (VStr ''ami-X'') \<and>
        map_of c ''SubnetId'' = Some (VStr ''subnet-Y'') \<and>
        map_of c ''KeyName'' = Some (VStr ''ops''))"
proof -
  have d: "distinct (map fst (sysargv_config ex_overrides))"
    by (simp add: ex_overrides_def)
  have n: "map_of (sysargv_config ex_overrides) ''source_config'' = None"
    by (simp add: ex_overrides_def)
  from effective_config_right_biased [OF d, of "VStr ''ami-new''" ex_sanitised] n
  obtain c where c: "effective_config ex_overrides (VStr ''ami-new'') ex_sanitised = Inr c"
    and v: "\<forall>k. map_of c k =
                  (case map_of (sysargv_config ex_overrides) k of
                     Some v \<Rightarrow> Some v
                   | None \<Rightarrow> if k = ''ImageId'' then Some (VStr ''ami-new'')
                             else map_of ex_sanitised k)"
    by auto
  have "map_of c ''ImageId'' = Some (VStr ''ami-X'')"
       "map_of c ''SubnetId'' = Some (VStr ''subnet-Y'')"
       "map_of c ''KeyName'' = Some (VStr ''ops'')"
    by (simp_all add: v ex_overrides_def ex_sanitised_def)
  with c d n show ?thesis by auto
qed

section \<open>The launch request\<close>

text \<open>
  C10. run_instance reads the configuration only under ImageId, InstanceType, KeyName,
  SubnetId, SecurityGroups, EbsOptimized, IamInstanceProfile and Tags: two configurations
  that agree on these eight keys give the same keyword arguments (or the same KeyError),
  and run_instance behaves the same on both, whatever else they hold.
\<close>

theorem run_instance_reads_launch_keys:
  assumes "\<forall>k\<in>launch_keys. map_of c1 k = map_of c2 k"
  shows "run_instances_kwargs c1 = run_instances_kwargs c2 \<and>
         run_instance p g c1 = run_instance p g c2"
proof -
  from assms have "dict_get c1 ''ImageId'' = dict_get c2 ''ImageId''"
    "dict_get c1 ''InstanceType'' = dict_get c2 ''InstanceType''"
    "dict_get c1 ''KeyName'' = dict_get c2 ''KeyName''"
    "dict_get c1 ''SubnetId'' = dict_get c2 ''SubnetId''"
    "dict_get c1 ''SecurityGroups'' = dict_get c2 ''SecurityGroups''"
    "dict_get c1 ''EbsOptimized'' = dict_get c2 ''EbsOptimized''"
    "dict_get c1 ''IamInstanceProfile'' = dict_get c2 ''IamInstanceProfile''"
    "dict_get c1 ''Tags'' = dict_get c2 ''Tags''"
    by (simp_all add: launch_keys_def dict_get_def)
  then have "run_instances_kwargs c1 = run_instances_kwargs c2"
    by (simp add: run_instances_kwargs_def)
  then show ?thesis by (simp add: run_instance_def)
qed

theorem run_instance_reads_launch_keys_witness:
  "map_of ex_sanitised ''ImageId'' = map_of ex_extra ''ImageId'' \<and>
   map_of ex_sanitised ''VpcId'' \<noteq> map_of ex_extra ''VpcId'' \<and>
   map_of ex_sanitised ''Colour'' \<noteq> map_of ex_extra ''Colour'' \<and>
   run_instances_kwargs ex_sanitised = run_instances_kwargs ex_extra \<and>
   (\<exists>kwargs. run_instances_kwargs ex_extra = Inr kwargs)"
proof -
  have a: "\<forall>k\<in>launch_keys. map_of ex_sanitised k = map_of ex_extra k"
    by (simp add: launch_keys_def ex_extra_def ex_sanitised_def dict_set_def)
  have b: "map_of ex_sanitised ''VpcId'' \<noteq> map_of ex_extra ''VpcId''"
    "map_of ex_sanitised ''Colour'' \<noteq> map_of ex_extra ''Colour''"
    by (simp_all add: ex_extra_def ex_sanitised_def dict_set_def)
  have c: "\<exists>kwargs. run_instances_kwargs ex_sanitised = Inr kwargs"
    by (simp add: run_instances_kwargs_def ex_sanitised_def ebind_def dict_get_def)
  from run_instance_reads_launch_keys [OF a] a b c show ?thesis
    by (auto simp: launch_keys_def)
qed

section \<open>Programs\<close>

lemma emits_plift: "emits Q (plift r)"
  by (simp add: emits_def plift_def)

lemma emits_emit: "Q ev \<Longrightarrow> emits Q (emit ev)"
  by (simp add: emits_def emit_def)

lemma emits_pbind:
  assumes m: "emits Q m" and f: "\<And>x. returns m x \<Longrightarrow> emits Q (f x)"
  shows "emits Q (pbind m f)"
  unfolding emits_def
proof
  fix w
  obtain r w' where mw: "m w = (r, w')" by (cases "m w")
  from m mw obtain evs where evs: "trace w' = trace w @ evs" "list_all Q evs"
    unfolding emits_def by (metis snd_conv)
  show "\<exists>evs. trace (snd (pbind m f w)) = trace w @ evs \<and> list_all Q evs"
  proof (cases r)
    case None
    with mw evs show ?thesis by (auto simp: pbind_def)
  next
    case (Some s)
    show ?thesis
    proof (cases s)
      case (Inl e)
      with Some mw evs show ?thesis by (auto simp: pbind_def)
    next
      case (Inr x)
      with Some mw have "returns m x" by (auto simp: returns_def)
      from f [OF this] obtain evs2 where
        "trace (snd (f x w')) = trace w' @ evs2" "list_all Q evs2"
        unfolding emits_def by blast
      with evs Inr Some mw show ?thesis
        by (intro exI [of _ "evs @ evs2"]) (simp add: pbind_def)
    qed
  qed
qed

lemma returns_plift: "returns (plift r) x \<longleftrightarrow> r = Inr x"
  by (simp add: returns_def plift_def)

lemma returns_pbind:
  assumes "returns (pbind m f) y"
  shows "\<exists>x. returns m x \<and> returns (f x) y"
proof -
  from assms obtain w w'' where r: "pbind m f w = (Some (Inr y), w'')"
    unfolding returns_def by blast
  obtain r0 w' where mw: "m w = (r0, w')" by (cases "m w")
  show ?thesis
  proof (cases r0)
    case None
    with r mw show ?thesis by (simp add: pbind_def)
  next
    case (Some s)
    show ?thesis
    proof (cases s)
      case (Inl e)
      with Some r mw show ?thesis by (simp add: pbind_def)
    next
      case (Inr x)
      with Some r mw have "f x w' = (Some (Inr y), w'')" by (simp add: pbind_def)
      with Inr Some mw show ?thesis unfolding returns_def by blast
    qed
  qed
qed

lemma yields_pbind:
  "(\<And>x. returns m x \<Longrightarrow> yields R (f x)) \<Longrightarrow> yields R (pbind m f)"
  unfolding yields_def by (blast dest: returns_pbind)

lemma yields_plift: "(\<And>x. r = Inr x \<Longrightarrow> R x) \<Longrightarrow> yields R (plift r)"
  by (simp add: yields_def returns_plift)

section \<open>The provider calls\<close>

lemma image_status_run:
  "image_status p g ami w =
     (observed_state p g ami (polls w),
      w\<lparr>trace := trace w @ [EvDescribeImages (region g) [(''ImageIds'', VList [ami])]],
        polls := Suc (polls w)\<rparr>)"
  by (simp add: image_status_def observed_state_def Let_def)

lemma emits_image_status:
  "Q (EvDescribeImages (region g) [(''ImageIds'', VList [ami])]) \<Longrightarrow> emits Q (image_status p g ami)"
  by (simp add: emits_def image_status_run)

lemma create_image_run:
  "create_image p g (sourceinstance g) w =
     (created_image_id p g,
      w\<lparr>trace := trace w @
         [EvCreateImage (region g) (create_image_kwargs p (sourceinstance g))]\<rparr>)"
  unfolding create_image_def created_image_id_def create_image_kwargs_def Let_def pbind_def
    plift_def emit_def start_def
  by (simp split: sum.splits)

lemma get_instance_config_run:
  "get_instance_config p g (sourceinstance g) w =
     (fetched_descriptor p g,
      w\<lparr>trace := trace w @
         [EvDescribeInstances (region g) [(''InstanceIds'', VList [VStr (sourceinstance g)])]]\<rparr>)"
  by (simp add: get_instance_config_def fetched_descriptor_def Let_def pbind_def plift_def
      emit_def start_def)

lemma run_instances_kwargs_ImageId:
  "run_instances_kwargs config = Inr kwargs \<Longrightarrow> map_of kwargs ''ImageId'' = map_of config ''ImageId''"
  by (auto simp: run_instances_kwargs_def ebind_Inr_iff dict_get_Inr_iff)

lemma emits_run_instance:
  assumes "map_of config ''ImageId'' = Some x"
  shows "emits (\<lambda>e. launch_uses x e \<and> \<not> is_create_image e \<and> \<not> is_describe_images e)
           (run_instance p g config)"
  unfolding run_instance_def
  by (intro emits_pbind emits_plift emits_emit)
     (simp add: returns_plift run_instances_kwargs_ImageId assms)

section \<open>The waiting loop\<close>

lemma wait_available_waiting:
  assumes "observed_state p g ami (polls w) = Some (Inr st)" and "st \<noteq> VStr ''available''"
  shows "wait_available (Suc fuel) p g ami w =
           wait_available fuel p g ami
             (w\<lparr>trace := trace w @ waiting_round g ami, polls := Suc (polls w)\<rparr>)"
  using assms by (cases w) (simp add: pbind_def image_status_run emit_def waiting_round_def)

lemma wait_available_available:
  assumes "observed_state p g ami (polls w) = Some (Inr (VStr ''available''))"
  shows "wait_available (Suc fuel) p g ami w =
           (Some (Inr ()),
            w\<lparr>trace := trace w @ [EvDescribeImages (region g) [(''ImageIds'', VList [ami])]],
              polls := Suc (polls w)\<rparr>)"
  using assms by (cases w) (simp add: pbind_def image_status_run plift_def)

lemma wait_available_running:
  "(\<forall>i<fuel. \<exists>st. observed_state p g ami (polls w + i) = Some (Inr st) \<and>
                    st \<noteq> VStr ''available'') \<Longrightarrow>
     fst (wait_available fuel p g ami w) = None"
proof (induction fuel arbitrary: w)
  case 0
  then show ?case by simp
next
  case (Suc fuel)
  from Suc.prems obtain st where st: "observed_state p g ami (polls w) = Some (Inr st)"
    "st \<noteq> VStr ''available''" by force
  let ?w = "w\<lparr>trace := trace w @ waiting_round g ami, polls := Suc (polls w)\<rparr>"
  have "\<forall>i<fuel. \<exists>st. observed_state p g ami (polls ?w + i) = Some (Inr st) \<and>
                    st \<noteq> VStr ''available''"
  proof (intro allI impI)
    fix i assume "i < fuel"
    then have "Suc i < Suc fuel" by simp
    with Suc.prems show "\<exists>st. observed_state p g ami (polls ?w + i) = Some (Inr st) \<and>
                    st \<noteq> VStr ''available''" by fastforce
  qed
  from Suc.IH [OF this] show ?case by (simp only: wait_available_waiting [OF st])
qed

lemma wait_available_returns:
  "(\<forall>i<k. \<exists>st. observed_state p g ami (polls w + i) = Some (Inr st) \<and>
                 st \<noteq> VStr ''available'') \<Longrightarrow>
   observed_state p g ami (polls w + k) = Some (Inr (VStr ''available'')) \<Longrightarrow>
   k < fuel \<Longrightarrow>
     wait_available fuel p g ami w =
       (Some (Inr ()),
        w\<lparr>trace := trace w @ concat (replicate k (waiting_round g ami)) @
                     [EvDescribeImages (region g) [(''ImageIds'', VList [ami])]],
          polls := polls w + k + 1\<rparr>)"
proof (induction k arbitrary: w fuel)
  case 0
  then obtain f where f: "fuel = Suc f" by (cases fuel) auto
  from 0 have obs: "observed_state p g ami (polls w) = Some (Inr (VStr ''available''))"
    by simp
  show ?case unfolding f by (simp add: wait_available_available [OF obs] del: wait_available.simps)
next
  case (Suc k)
  then obtain f where f: "fuel = Suc f" "k < f" by (cases fuel) auto
  from Suc.prems(1) obtain st where st: "observed_state p g ami (polls w) = Some (Inr st)"
    "st \<noteq> VStr ''available''" by force
  let ?w = "w\<lparr>trace := trace w @ waiting_round g ami, polls := Suc (polls w)\<rparr>"
  have a: "\<forall>i<k. \<exists>st. observed_state p g ami (polls ?w + i) = Some (Inr st) \<and>
                    st \<noteq> VStr ''available''"
  proof (intro allI impI)
    fix i assume "i < k"
    then have "Suc i < Suc k" by simp
    with Suc.prems(1) show "\<exists>st. observed_state p g ami (polls ?w + i) = Some (Inr st) \<and>
                    st \<noteq> VStr ''available''" by fastforce
  qed
  have b: "observed_state p g ami (polls ?w + k) = Some (Inr (VStr ''available''))"
    using Suc.prems(2) by simp
  from Suc.IH [OF a b f(2)] show ?case unfolding f(1)
    by (simp add: wait_available_waiting [OF st] del: wait_available.simps)
qed

text \<open>
  C5. Let every status query return a state, \<open>s n\<close> at the n-th query from now. The loop
  queries, and after a state other than available it sleeps 5 seconds, prints, sleeps 5
  seconds and queries again. It stops at the first query that returns available, after
  exactly that many rounds. It has no other exit: it returns for some number of rounds
  if and only if available occurs in the sequence, and when available never occurs
  (a failed image, say) it is still running after any number of rounds.
\<close>

theorem wait_available_terminates_iff:
  assumes "\<forall>n. observed_state p g ami (polls w + n) = Some (Inr (s n))"
  shows "((\<exists>fuel. fst (wait_available fuel p g ami w) \<noteq> None) \<longleftrightarrow>
            (\<exists>n. s n = VStr ''available'')) \<and>
         ((\<forall>n. s n \<noteq> VStr ''available'') \<longrightarrow>
            (\<forall>fuel. fst (wait_available fuel p g ami w) = None)) \<and>
         (\<forall>k. s k = VStr ''available'' \<and> (\<forall>i<k. s i \<noteq> VStr ''available'') \<longrightarrow>
            (\<forall>fuel\<le>k. fst (wait_available fuel p g ami w) = None) \<and>
            (\<forall>fuel>k. wait_available fuel p g ami w =
               (Some (Inr ()),
                w\<lparr>trace := trace w @ concat (replicate k (waiting_round g ami)) @
                             [EvDescribeImages (region g) [(''ImageIds'', VList [ami])]],
                  polls := polls w + k + 1\<rparr>)))"
proof -
  have never: "\<forall>fuel. fst (wait_available fuel p g ami w) = None"
    if "\<forall>n. s n \<noteq> VStr ''available''"
  proof
    fix fuel
    from assms that
    have "\<forall>i<fuel. \<exists>st. observed_state p g ami (polls w + i) = Some (Inr st) \<and>
                    st \<noteq> VStr ''available''" by simp
    then show "fst (wait_available fuel p g ami w) = None" by (rule wait_available_running)
  qed
  have first: "(\<forall>fuel\<le>k. fst (wait_available fuel p g ami w) = None) \<and>
            (\<forall>fuel>k. wait_available fuel p g ami w =
               (Some (Inr ()),
                w\<lparr>trace := trace w @ concat (replicate k (waiting_round g ami)) @
                             [EvDescribeImages (region g) [(''ImageIds'', VList [ami])]],
                  polls := polls w + k + 1\<rparr>))"
    if k: "s k = VStr ''available''" "\<forall>i<k. s i \<noteq> VStr ''available''" for k
  proof (intro conjI allI impI)
    fix fuel assume "fuel \<le> k"
    with assms k(2)
    have "\<forall>i<fuel. \<exists>st. observed_state p g ami (polls w + i) = Some (Inr st) \<and>
                    st \<noteq> VStr ''available''" by simp
    then show "fst (wait_available fuel p g ami w) = None" by (rule wait_available_running)
  next
    fix fuel assume f: "k < fuel"
    from assms k(2)
    have a: "\<forall>i<k. \<exists>st. observed_state p g ami (polls w + i) = Some (Inr st) \<and>
                    st \<noteq> VStr ''available''" by simp
    from assms k(1)
    have b: "observed_state p g ami (polls w + k) = Some (Inr (VStr ''available''))" by simp
    from wait_available_returns [OF a b f]
    show "wait_available fuel p g ami w =
               (Some (Inr ()),
                w\<lparr>trace := trace w @ concat (replicate k (waiting_round g ami)) @
                             [EvDescribeImages (region g) [(''ImageIds'', VList [ami])]],
                  polls := polls w + k + 1\<rparr>)" .
  qed
  have iff: "(\<exists>fuel. fst (wait_available fuel p g ami w) \<noteq> None) \<longleftrightarrow>
            (\<exists>n. s n = VStr ''available'')"
  proof
    assume run: "\<exists>fuel. fst (wait_available fuel p g ami w) \<noteq> None"
    show "\<exists>n. s n = VStr ''available''"
    proof (rule ccontr)
      assume "\<not> (\<exists>n. s n = VStr ''available'')"
      then have "\<forall>n. s n \<noteq> VStr ''available''" by simp
      from never [OF this] run show False by simp
    qed
  next
    assume ex: "\<exists>n. s n = VStr ''available''"
    define k where "k = (LEAST n. s n = VStr ''available'')"
    from ex have k1: "s k = VStr ''available''" unfolding k_def by (rule LeastI_ex)
    have k2: "\<forall>i<k. s i \<noteq> VStr ''available''"
      unfolding k_def by (auto dest: not_less_Least)
    have "k < Suc k" by simp
    from first [OF k1 k2, THEN conjunct2, THEN spec, THEN mp, OF this]
    have "fst (wait_available (Suc k) p g ami w) = Some (Inr ())" by (simp only: fst_conv)
    then have "fst (wait_available (Suc k) p g ami w) \<noteq> None" by (simp only:) simp
    then show "\<exists>fuel. fst (wait_available fuel p g ami w) \<noteq> None" ..
  qed
  have never': "(\<forall>n. s n \<noteq> VStr ''available'') \<longrightarrow>
            (\<forall>fuel. fst (wait_available fuel p g ami w) = None)"
    by (intro impI) (rule never)
  have first': "\<forall>k. s k = VStr ''available'' \<and> (\<forall>i<k. s i \<noteq> VStr ''available'') \<longrightarrow>
            (\<forall>fuel\<le>k. fst (wait_available fuel p g ami w) = None) \<and>
            (\<forall>fuel>k. wait_available fuel p g ami w =
               (Some (Inr ()),
                w\<lparr>trace := trace w @ concat (replicate k (waiting_round g ami)) @
                             [EvDescribeImages (region g) [(''ImageIds'', VList [ami])]],
                  polls := polls w + k + 1\<rparr>))"
    by (intro allI impI, elim conjE) (rule first)
  show ?thesis by (rule conjI [OF iff conjI [OF never' first']])
qed

theorem wait_available_terminates_iff_witness:
  "(\<forall>n. observed_state ex_env ex_globals (VStr ''ami-new'') (polls start + n) =
          Some (Inr (ex_states n))) \<and>
   ex_states 2 = VStr ''available'' \<and>
   fst (wait_available 2 ex_env ex_globals (VStr ''ami-new'') start) = None \<and>
   wait_available 3 ex_env ex_globals (VStr ''ami-new'') start =
     (Some (Inr ()),
      start\<lparr>trace := trace start @
                concat (replicate 2 (waiting_round ex_globals (VStr ''ami-new''))) @
                [EvDescribeImages (region ex_globals) [(''ImageIds'', VList [VStr ''ami-new''])]],
            polls := polls start + 2 + 1\<rparr>)"
proof -
  have h: "\<forall>n. observed_state ex_env ex_globals (VStr ''ami-new'') (polls start + n) =
          Some (Inr (ex_states n))"
    by (simp add: observed_state_def image_status_def ex_env_def ex_states_def start_def
        ebind_def py_getitem_def py_getitem0_def dict_get_def)
  have k1: "ex_states 2 = VStr ''available''" by (simp add: ex_states_def)
  have k2: "\<forall>i<2. ex_states i \<noteq> VStr ''available''" by (simp add: ex_states_def)
  note t = wait_available_terminates_iff [OF h, THEN conjunct2, THEN conjunct2, THEN spec,
      THEN mp, OF conjI [OF k1 k2]]
  from t
  have "(\<forall>fuel\<le>2. fst (wait_available fuel ex_env ex_globals (VStr ''ami-new'') start) = None) \<and>
        (\<forall>fuel>2. wait_available fuel ex_env ex_globals (VStr ''ami-new'') start =
     (Some (Inr ()),
      start\<lparr>trace := trace start @
                concat (replicate 2 (waiting_round ex_globals (VStr ''ami-new''))) @
                [EvDescribeImages (region ex_globals) [(''ImageIds'', VList [VStr ''ami-new''])]],
            polls := polls start + 2 + 1\<rparr>))" .
  then have "fst (wait_available 2 ex_env ex_globals (VStr ''ami-new'') start) = None"
    and "wait_available 3 ex_env ex_globals (VStr ''ami-new'') start =
     (Some (Inr ()),
      start\<lparr>trace := trace start @
                concat (replicate 2 (waiting_round ex_globals (VStr ''ami-new''))) @
                [EvDescribeImages (region ex_globals) [(''ImageIds'', VList [VStr ''ami-new''])]],
            polls := polls start + 2 + 1\<rparr>)"
    by simp_all
  with h k1 show ?thesis by simp
qed

section \<open>The events of main\<close>

lemma emits_if: "emits Q a \<Longrightarrow> emits Q b \<Longrightarrow> emits Q (if c then a else b)"
  by simp

lemma emits_wait_available:
  assumes "Q (EvDescribeImages (region g) [(''ImageIds'', VList [ami])])"
    and "\<And>n. Q (EvSleep n)" and "\<And>s. Q (EvPrint s)"
  shows "emits Q (wait_available fuel p g ami)"
proof (induction fuel)
  case 0
  show ?case by (simp add: emits_def)
next
  case (Suc fuel)
  show ?case unfolding wait_available.simps
    by (intro emits_pbind emits_if emits_emit emits_plift emits_image_status assms Suc)
qed

lemma emits_main_wait:
  assumes "Q (EvDescribeImages (region g) [(''ImageIds'', VList [ami])])"
    and "\<And>n. Q (EvSleep n)" and "\<And>s. Q (EvPrint s)"
  shows "emits Q (main_wait fuel p g ami)"
  unfolding main_wait_def
  by (intro emits_pbind emits_emit emits_plift emits_image_status emits_wait_available assms)

lemma yields_main_wait: "yields (\<lambda>x. x = ami) (main_wait fuel p g ami)"
  unfolding main_wait_def
  by (intro yields_pbind yields_plift) simp

lemma main_image_created:
  assumes "map_of (sysargv_config g) ''ImageId'' = None"
  shows "main_image fuel p g w =
     (let w' = w\<lparr>trace := trace w @
                  [EvPrint (nl @ ''=> ImageId not specified, creating an AMI from EC2 instance (''
                            @ sourceinstance g @ '')''),
                   EvCreateImage (region g) (create_image_kwargs p (sourceinstance g))]\<rparr>
      in case created_image_id p g of
           None \<Rightarrow> (None, w')
         | Some (Inl e) \<Rightarrow> (Some (Inl e), w')
         | Some (Inr ami) \<Rightarrow> main_wait fuel p g ami w')"
  using assms
  by (cases w)
     (simp add: main_image_def pbind_def emit_def create_image_run Let_def
        split: option.splits sum.splits)

lemma main_image_override:
  assumes "map_of (sysargv_config g) ''ImageId'' = Some v"
  shows "main_image fuel p g w =
     (case v of
        VStr a \<Rightarrow>
          (Some (Inr v),
           w\<lparr>trace := trace w @
              [EvPrint (nl @ ''<= ImageID specified, using ('' @ a @ '') to launch new instance.'')]\<rparr>)
      | _ \<Rightarrow> (Some (Inl TypeError), w))"
  using assms
  by (simp add: main_image_def pbind_def plift_def emit_def dict_get_def py_add_str_def
      split: pyval.splits)

lemma effective_config_ImageId:
  assumes "distinct (map fst (sysargv_config g))"
    and "effective_config g ami sanitised = Inr c"
  shows "map_of c ''ImageId'' =
           Some (case map_of (sysargv_config g) ''ImageId'' of Some v \<Rightarrow> v | None \<Rightarrow> ami)"
proof -
  from assms(2) have n: "map_of (custom_config g ami) ''source_config'' = None"
    by (auto simp: effective_config_def modify_instance_config_def split: if_splits)
  from map_of_modify_instance_config [OF distinct_custom_config n, of sanitised] assms(2)
  have "map_of c ''ImageId'' =
          (case map_of (custom_config g ami) ''ImageId'' of
             Some v \<Rightarrow> Some v | None \<Rightarrow> map_of sanitised ''ImageId'')"
    by (auto simp: effective_config_def)
  then show ?thesis
    by (simp add: map_of_custom_config [OF assms(1)] split: option.splits)
qed

lemma emits_launch_step:
  assumes "returns (plift (effective_config g ami sanitised)) new_config"
    and d: "distinct (map fst (sysargv_config g))"
    and x: "x = (case map_of (sysargv_config g) ''ImageId'' of Some v \<Rightarrow> v | None \<Rightarrow> ami)"
  shows "emits (\<lambda>e. launch_uses x e \<and> \<not> is_create_image e \<and> \<not> is_describe_images e)
           (run_instance p g new_config)"
proof -
  from assms(1) have "effective_config g ami sanitised = Inr new_config"
    by (simp add: returns_plift)
  from effective_config_ImageId [OF d this] x
  have "map_of new_config ''ImageId'' = Some x" by simp
  then show ?thesis by (rule emits_run_instance)
qed

lemma emits_main_launch:
  assumes d: "distinct (map fst (sysargv_config g))"
    and x: "x = (case map_of (sysargv_config g) ''ImageId'' of Some v \<Rightarrow> v | None \<Rightarrow> ami)"
  shows "emits (\<lambda>e. launch_uses x e \<and> \<not> is_create_image e \<and> \<not> is_describe_images e)
           (main_launch p g ami)"
  unfolding main_launch_def get_instance_config_def Let_def
  apply (intro emits_pbind emits_emit emits_plift)
               apply simp_all
  apply (erule emits_launch_step [OF _ d x])
  done

lemma emits_main_image:
  assumes "\<And>s. Q (EvPrint s)" and "\<And>r k. Q (EvCreateImage r k)"
    and "\<And>r k. Q (EvDescribeImages r k)" and "\<And>n. Q (EvSleep n)"
  shows "emits Q (main_image fuel p g)"
  unfolding main_image_def create_image_def Let_def
  by (intro emits_if emits_pbind emits_emit emits_plift emits_main_wait assms)

lemma launch_uses_no_launch: "\<not> is_run_instances e \<Longrightarrow> launch_uses x e"
  by (cases e) simp_all

lemma filter_create_none:
  "list_all (\<lambda>e. \<not> is_create_image e \<and> Q e) evs \<Longrightarrow> filter is_create_image evs = []"
  by (induction evs) auto

section \<open>A descriptor that lacks a key\<close>

lemma sanitise_missing_key:
  assumes k: "k \<in> required_keys" and none: "map_of d k = None"
  shows "\<exists>e. sanitise_instance_config g (VDict d) = Inl e"
proof (cases "sanitise_instance_config g (VDict d)")
  case (Inl e)
  then show ?thesis by simp
next
  case (Inr r)
  obtain fc sc3 where r: "r = (fc, sc3)" by (cases r)
  from sanitise_Inr [OF Inr [unfolded r]] obtain sgv ids iam tags where
    sg: "map_of d ''SecurityGroups'' = Some sgv"
    and sc3: "sc3 = dict_set (dict_set (dict_set d ''SecurityGroups'' (VList ids))
                       ''IamInstanceProfile'' iam) ''Tags'' (VList tags)"
    and pr: "project_keys sc3 filter_keys [] = Inr fc"
    by auto
  from sg none have "k \<noteq> ''SecurityGroups''" by auto
  with k have "k \<notin> mutated_keys" and inset: "k \<in> set filter_keys"
    by (auto simp: required_keys_def mutated_keys_def filter_keys_def)
  then have "map_of sc3 k = None"
    using none by (simp add: sc3 map_of_dict_set mutated_keys_def)
  from project_keys_Inl [OF inset this, of "[]"] pr show ?thesis by simp
qed

lemma main_launch_sanitise_error:
  assumes "fetched_descriptor p g = Some (Inr v)" and "sanitise_instance_config g v = Inl e"
  shows "main_launch p g ami w =
     (Some (Inl e),
      w\<lparr>trace := trace w @
         [EvPrint (nl @ ''<= Getting source EC2 configuration ('' @ sourceinstance g @ '')...''),
          EvDescribeInstances (region g) [(''InstanceIds'', VList [VStr (sourceinstance g)])],
          EvPrint (nl @ ''<= Sanitised source EC2 configuration:'')]\<rparr>)"
  using assms
  by (cases w) (simp add: main_launch_def pbind_def emit_def plift_def get_instance_config_run)

text \<open>
  C6. Let the descriptor that get_instance_config returns lack one of ImageId,
  InstanceType, KeyName, SubnetId, VpcId, SecurityGroups, EbsOptimized. Then
  sanitise_instance_config raises, and the second half of main ends with that exception
  right after the line that announces the sanitised configuration: whatever image was
  resolved before, the run prints no configuration, makes no launch call and does not
  return normally.
\<close>

theorem missing_key_is_fatal:
  assumes k: "k \<in> required_keys" and none: "map_of d k = None"
    and fetched: "fetched_descriptor p g = Some (Inr (VDict d))"
  shows "(\<exists>e. sanitise_instance_config g (VDict d) = Inl e \<and>
            (\<forall>ami w. main_launch p g ami w =
               (Some (Inl e),
                w\<lparr>trace := trace w @
                   [EvPrint (nl @ ''<= Getting source EC2 configuration (''
                             @ sourceinstance g @ '')...''),
                    EvDescribeInstances (region g)
                      [(''InstanceIds'', VList [VStr (sourceinstance g)])],
                    EvPrint (nl @ ''<= Sanitised source EC2 configuration:'')]\<rparr>))) \<and>
         (\<forall>fuel. fst (main fuel p g start) \<noteq> Some (Inr ()) \<and>
            list_all (\<lambda>e. \<not> is_run_instances e \<and> \<not> is_print_dict e)
              (trace (snd (main fuel p g start))))"
proof -
  from sanitise_missing_key [OF k none] obtain e where
    e: "sanitise_instance_config g (VDict d) = Inl e" by auto
  note run = main_launch_sanitise_error [OF fetched e]
  let ?Q = "\<lambda>e. \<not> is_run_instances e \<and> \<not> is_print_dict e"
  have launch: "emits ?Q (main_launch p g ami)" for ami
    by (simp add: emits_def run)
  have image: "emits ?Q (main_image fuel p g)" for fuel
    by (rule emits_main_image) simp_all
  have all: "fst (main fuel p g start) \<noteq> Some (Inr ()) \<and>
            list_all ?Q (trace (snd (main fuel p g start)))" for fuel
  proof
    show "fst (main fuel p g start) \<noteq> Some (Inr ())"
    proof
      assume "fst (main fuel p g start) = Some (Inr ())"
      then have "returns (main fuel p g) ()"
        unfolding returns_def by (metis prod.collapse)
      then obtain ami where "returns (main_launch p g ami) ()"
        unfolding main_def by (auto dest: returns_pbind)
      then show False by (simp add: returns_def run)
    qed
    have "emits ?Q (main fuel p g)"
      unfolding main_def by (intro emits_pbind image launch)
    then obtain evs where "trace (snd (main fuel p g start)) = trace start @ evs"
      "list_all ?Q evs" unfolding emits_def by auto
    then show "list_all ?Q (trace (snd (main fuel p g start)))" by (simp add: start_def)
  qed
  from e run all show ?thesis by auto
qed

theorem missing_key_is_fatal_witness:
  "''SubnetId'' \<in> required_keys \<and>
   map_of ex_no_subnet ''SubnetId'' = None \<and>
   fetched_descriptor ex_env_no_subnet ex_globals = Some (Inr (VDict ex_no_subnet)) \<and>
   (\<exists>e. sanitise_instance_config ex_globals (VDict ex_no_subnet) = Inl e) \<and>
   fst (main 3 ex_env_no_subnet ex_globals start) \<noteq> Some (Inr ()) \<and>
   list_all (\<lambda>e. \<not> is_run_instances e \<and> \<not> is_print_dict e)
     (trace (snd (main 3 ex_env_no_subnet ex_globals start)))"
proof -
  have k: "''SubnetId'' \<in> required_keys" by (simp add: required_keys_def)
  have n: "map_of ex_no_subnet ''SubnetId'' = None"
    by (simp add: ex_no_subnet_def ex_descriptor_def)
  have f: "fetched_descriptor ex_env_no_subnet ex_globals = Some (Inr (VDict ex_no_subnet))"
    by (simp add: fetched_descriptor_def get_instance_config_def ex_env_no_subnet_def
        ex_env_def pbind_def emit_def plift_def ebind_def py_getitem_def py_getitem0_def
        dict_get_def Let_def)
  from missing_key_is_fatal [OF k n f] k n f show ?thesis by auto
qed

section \<open>The image that main launches from\<close>

lemma emitsD:
  "emits Q m \<Longrightarrow> \<exists>evs. trace (snd (m w)) = trace w @ evs \<and> list_all Q evs"
  by (simp add: emits_def)

lemma main_after_image:
  assumes d: "distinct (map fst (sysargv_config g))"
    and x: "x = (case map_of (sysargv_config g) ''ImageId'' of Some v \<Rightarrow> v | None \<Rightarrow> ami)"
    and mi: "main_image fuel p g w = (Some (Inr ami), w1)"
  shows "\<exists>evs. trace (snd (main fuel p g w)) = trace w1 @ evs \<and>
           list_all (\<lambda>e. launch_uses x e \<and> \<not> is_create_image e \<and> \<not> is_describe_images e) evs"
proof -
  from mi have "main fuel p g w = main_launch p g ami w1"
    by (simp add: main_def pbind_def)
  with emits_main_launch [OF d x, of p] show ?thesis by (simp add: emits_def)
qed

lemma main_without_image:
  assumes "main_image fuel p g w = (r, w1)" and "\<forall>ami. r \<noteq> Some (Inr ami)"
  shows "snd (main fuel p g w) = w1"
  using assms by (auto simp: main_def pbind_def split: option.splits sum.splits)

lemma main_image_created_trace:
  assumes n: "map_of (sysargv_config g) ''ImageId'' = None"
  shows "\<exists>evs. trace (snd (main_image fuel p g w)) =
             trace w @
             [EvPrint (nl @ ''=> ImageId not specified, creating an AMI from EC2 instance (''
                       @ sourceinstance g @ '')''),
              EvCreateImage (region g) (create_image_kwargs p (sourceinstance g))] @ evs \<and>
           list_all (\<lambda>e. \<not> is_create_image e \<and> \<not> is_run_instances e) evs"
proof (cases "created_image_id p g")
  case None
  then show ?thesis by (simp add: main_image_created [OF n] Let_def)
next
  case (Some s)
  show ?thesis
  proof (cases s)
    case (Inl e)
    with Some show ?thesis by (simp add: main_image_created [OF n] Let_def)
  next
    case (Inr ami)
    let ?w = "w\<lparr>trace := trace w @
                  [EvPrint (nl @ ''=> ImageId not specified, creating an AMI from EC2 instance (''
                            @ sourceinstance g @ '')''),
                   EvCreateImage (region g) (create_image_kwargs p (sourceinstance g))]\<rparr>"
    have "emits (\<lambda>e. \<not> is_create_image e \<and> \<not> is_run_instances e) (main_wait fuel p g ami)"
      by (rule emits_main_wait) simp_all
    from emitsD [OF this, of ?w]
    obtain evs where ev: "trace (snd (main_wait fuel p g ami ?w)) = trace ?w @ evs"
      "list_all (\<lambda>e. \<not> is_create_image e \<and> \<not> is_run_instances e) evs"
      by (elim exE conjE) (rule that)
    have "main_image fuel p g w = main_wait fuel p g ami ?w"
      using Some Inr by (simp add: main_image_created [OF n] Let_def)
    with ev show ?thesis by (intro exI [of _ evs]) simp
  qed
qed

lemma main_image_created_value:
  assumes n: "map_of (sysargv_config g) ''ImageId'' = None"
    and mi: "main_image fuel p g w = (Some (Inr ami), w1)"
  shows "created_image_id p g = Some (Inr ami)"
proof (cases "created_image_id p g")
  case None
  with mi show ?thesis by (simp add: main_image_created [OF n] Let_def)
next
  case (Some s)
  show ?thesis
  proof (cases s)
    case (Inl e)
    with Some mi show ?thesis by (simp add: main_image_created [OF n] Let_def)
  next
    case (Inr a)
    with Some mi have "returns (main_wait fuel p g a) ami"
      unfolding returns_def by (auto simp: main_image_created [OF n] Let_def)
    with yields_main_wait [of a fuel p g] have "ami = a" by (simp add: yields_def)
    with Some Inr show ?thesis by simp
  qed
qed

lemma list_all_launch_uses:
  "list_all (\<lambda>e. \<not> is_create_image e \<and> \<not> is_run_instances e) evs \<Longrightarrow>
     list_all (launch_uses x) evs"
  by (induction evs) (auto simp: launch_uses_no_launch)

lemma list_all_no_launch:
  "list_all (\<lambda>e. \<not> is_create_image e \<and> \<not> is_run_instances e) evs \<Longrightarrow>
     list_all (\<lambda>e. \<not> is_run_instances e) evs"
  by (induction evs) auto

lemma list_all_launch_only:
  "list_all (\<lambda>e. launch_uses x e \<and> \<not> is_create_image e \<and> \<not> is_describe_images e) evs \<Longrightarrow>
     list_all (launch_uses x) evs \<and> filter is_create_image evs = [] \<and>
     filter is_describe_images evs = []"
  by (induction evs) auto

lemma main_created_trace:
  assumes d: "distinct (map fst (sysargv_config g))"
    and n: "map_of (sysargv_config g) ''ImageId'' = None"
  shows "\<exists>evs1 evs2.
           trace (snd (main fuel p g w)) =
             trace w @
             [EvPrint (nl @ ''=> ImageId not specified, creating an AMI from EC2 instance (''
                       @ sourceinstance g @ '')''),
              EvCreateImage (region g) (create_image_kwargs p (sourceinstance g))] @
             evs1 @ evs2 \<and>
           list_all (\<lambda>e. \<not> is_create_image e \<and> \<not> is_run_instances e) evs1 \<and>
           filter is_create_image evs2 = [] \<and>
           (\<forall>ami. fst (main_image fuel p g w) = Some (Inr ami) \<longrightarrow>
                  list_all (launch_uses ami) evs2) \<and>
           ((\<forall>ami. fst (main_image fuel p g w) \<noteq> Some (Inr ami)) \<longrightarrow> evs2 = [])"
proof -
  obtain r w1 where mi: "main_image fuel p g w = (r, w1)"
    by (cases "main_image fuel p g w")
  from main_image_created_trace [OF n, of fuel p w] obtain evs1 where
    w1': "trace (snd (main_image fuel p g w)) =
           trace w @
           [EvPrint (nl @ ''=> ImageId not specified, creating an AMI from EC2 instance (''
                     @ sourceinstance g @ '')''),
            EvCreateImage (region g) (create_image_kwargs p (sourceinstance g))] @ evs1"
    and e1: "list_all (\<lambda>e. \<not> is_create_image e \<and> \<not> is_run_instances e) evs1"
    by (elim exE conjE) (rule that)
  from w1' mi have w1: "trace w1 =
           trace w @
           [EvPrint (nl @ ''=> ImageId not specified, creating an AMI from EC2 instance (''
                     @ sourceinstance g @ '')''),
            EvCreateImage (region g) (create_image_kwargs p (sourceinstance g))] @ evs1"
    by simp
  show ?thesis
  proof (cases "\<exists>ami. r = Some (Inr ami)")
    case True
    then obtain ami where r: "r = Some (Inr ami)" by auto
    have x: "ami = (case map_of (sysargv_config g) ''ImageId'' of Some v \<Rightarrow> v | None \<Rightarrow> ami)"
      by (simp add: n)
    from main_after_image [OF d x mi [unfolded r]] obtain evs2 where
      t: "trace (snd (main fuel p g w)) = trace w1 @ evs2"
      and e2: "list_all (\<lambda>e. launch_uses ami e \<and> \<not> is_create_image e \<and>
                             \<not> is_describe_images e) evs2"
      by (elim exE conjE) (rule that)
    from list_all_launch_only [OF e2]
    have "list_all (launch_uses ami) evs2" "filter is_create_image evs2 = []" by simp_all
    with t w1 e1 mi r show ?thesis
      by (intro exI [of _ evs1] exI [of _ evs2]) simp
  next
    case False
    then have nr: "\<forall>ami. r \<noteq> Some (Inr ami)" by simp
    from main_without_image [OF mi nr] w1 e1 mi nr show ?thesis
      by (intro exI [of _ evs1] exI [of _ "[]"]) simp
  qed
qed

text \<open>
  What create_image returns is read from the provider's answer to the CreateImage call:
  the value under ImageId of the response.
\<close>

lemma created_image_id_provider:
  "created_image_id p g = Some (Inr ami) \<longleftrightarrow>
     (\<exists>response.
        create_image_response p (region g) (create_image_kwargs p (sourceinstance g)) =
          Inr response \<and>
        py_getitem response ''ImageId'' = Inr ami)"
  unfolding created_image_id_def create_image_def create_image_kwargs_def Let_def pbind_def
    plift_def emit_def start_def
  by (simp split: sum.splits)

text \<open>
  C4. With an ImageId override \<open>v\<close>, a run of main makes no CreateImage and no
  DescribeImages call, main_image returns \<open>v\<close> itself, every launch request of the run
  has \<open>v\<close> as its ImageId, and \<open>v\<close> is the ImageId of the effective configuration
  whatever image id is merged under it. Without the override, a run makes exactly one
  CreateImage call, for the source instance; when main_image returns, the id it returns
  is the value under ImageId of the provider's response to that call, and that id is the
  ImageId of the effective configuration and of every launch request of the run; when
  main_image does not return, the run launches nothing.
\<close>

theorem image_override_bypasses_provisioning:
  assumes d: "distinct (map fst (sysargv_config g))"
  shows "(\<forall>v. map_of (sysargv_config g) ''ImageId'' = Some v \<longrightarrow>
            filter is_create_image (trace (snd (main fuel p g start))) = [] \<and>
            filter is_describe_images (trace (snd (main fuel p g start))) = [] \<and>
            list_all (launch_uses v) (trace (snd (main fuel p g start))) \<and>
            (is_str v \<longrightarrow> fst (main_image fuel p g start) = Some (Inr v)) \<and>
            (\<forall>ami s c. effective_config g ami s = Inr c \<longrightarrow> map_of c ''ImageId'' = Some v)) \<and>
         (map_of (sysargv_config g) ''ImageId'' = None \<longrightarrow>
            length (filter is_create_image (trace (snd (main fuel p g start)))) = 1 \<and>
            filter is_create_image (trace (snd (main fuel p g start))) =
              [EvCreateImage (region g) (create_image_kwargs p (sourceinstance g))] \<and>
            map_of (create_image_kwargs p (sourceinstance g)) ''InstanceId'' =
              Some (VStr (sourceinstance g)) \<and>
            (\<forall>ami w1. main_image fuel p g start = (Some (Inr ami), w1) \<longrightarrow>
               (\<exists>response.
                  create_image_response p (region g)
                    (create_image_kwargs p (sourceinstance g)) = Inr response \<and>
                  py_getitem response ''ImageId'' = Inr ami) \<and>
               created_image_id p g = Some (Inr ami) \<and>
               list_all (launch_uses ami) (trace (snd (main fuel p g start)))) \<and>
            ((\<forall>ami. fst (main_image fuel p g start) \<noteq> Some (Inr ami)) \<longrightarrow>
               list_all (\<lambda>e. \<not> is_run_instances e) (trace (snd (main fuel p g start)))) \<and>
            (\<forall>ami s c. effective_config g ami s = Inr c \<longrightarrow> map_of c ''ImageId'' = Some ami))"
proof (intro conjI allI impI)
  fix v assume v: "map_of (sysargv_config g) ''ImageId'' = Some v"
  note mi = main_image_override [OF v, of fuel p start]
  have t: "filter is_create_image (trace (snd (main fuel p g start))) = [] \<and>
           filter is_describe_images (trace (snd (main fuel p g start))) = [] \<and>
           list_all (launch_uses v) (trace (snd (main fuel p g start)))"
  proof (cases "is_str v")
    case True
    then obtain a where a: "v = VStr a" by (cases v) (simp_all add: is_str_def)
    let ?w1 = "start\<lparr>trace := trace start @
       [EvPrint (nl @ ''<= ImageID specified, using ('' @ a @ '') to launch new instance.'')]\<rparr>"
    from mi a have m: "main_image fuel p g start = (Some (Inr v), ?w1)" by simp
    have x: "v = (case map_of (sysargv_config g) ''ImageId'' of Some v \<Rightarrow> v | None \<Rightarrow> v)"
      by (simp add: v)
    from main_after_image [OF d x m] obtain evs where
      "trace (snd (main fuel p g start)) = trace ?w1 @ evs"
      "list_all (\<lambda>e. launch_uses v e \<and> \<not> is_create_image e \<and> \<not> is_describe_images e) evs"
      by (elim exE conjE) (rule that)
    with list_all_launch_only [of v evs] show ?thesis by (simp add: start_def)
  next
    case False
    with mi have m: "main_image fuel p g start = (Some (Inl TypeError), start)"
      by (cases v) (simp_all add: is_str_def)
    from main_without_image [OF m] show ?thesis by (simp add: start_def)
  qed
  from t show "filter is_create_image (trace (snd (main fuel p g start))) = []" by simp
  from t show "filter is_describe_images (trace (snd (main fuel p g start))) = []" by simp
  from t show "list_all (launch_uses v) (trace (snd (main fuel p g start)))" by simp
  show "fst (main_image fuel p g start) = Some (Inr v)" if "is_str v"
    using that mi by (cases v) (simp_all add: is_str_def)
  show "map_of c ''ImageId'' = Some v" if "effective_config g ami s = Inr c" for ami s c
    using effective_config_ImageId [OF d that] by (simp add: v)
next
  assume n: "map_of (sysargv_config g) ''ImageId'' = None"
  from main_created_trace [OF d n, of fuel p start] obtain evs1 evs2 where
    t: "trace (snd (main fuel p g start)) =
          trace start @
          [EvPrint (nl @ ''=> ImageId not specified, creating an AMI from EC2 instance (''
                    @ sourceinstance g @ '')''),
           EvCreateImage (region g) (create_image_kwargs p (sourceinstance g))] @
          evs1 @ evs2"
    and e1: "list_all (\<lambda>e. \<not> is_create_image e \<and> \<not> is_run_instances e) evs1"
    and c2: "filter is_create_image evs2 = []"
    and l2: "\<forall>ami. fst (main_image fuel p g start) = Some (Inr ami) \<longrightarrow>
                  list_all (launch_uses ami) evs2"
    and n2: "(\<forall>ami. fst (main_image fuel p g start) \<noteq> Some (Inr ami)) \<longrightarrow> evs2 = []"
    by (elim exE conjE) (rule that)
  from filter_create_none [OF e1] have c1: "filter is_create_image evs1 = []" .
  show "length (filter is_create_image (trace (snd (main fuel p g start)))) = 1"
    unfolding t by (simp add: c1 c2 start_def)
  show "filter is_create_image (trace (snd (main fuel p g start))) =
          [EvCreateImage (region g) (create_image_kwargs p (sourceinstance g))]"
    unfolding t by (simp add: c1 c2 start_def)
  show "map_of (create_image_kwargs p (sourceinstance g)) ''InstanceId'' =
          Some (VStr (sourceinstance g))"
    by (simp add: create_image_kwargs_def)
  show "\<exists>response.
          create_image_response p (region g) (create_image_kwargs p (sourceinstance g)) =
            Inr response \<and>
          py_getitem response ''ImageId'' = Inr ami"
    if "main_image fuel p g start = (Some (Inr ami), w1)" for ami w1
    using main_image_created_value [OF n that] by (simp only: created_image_id_provider)
  show "created_image_id p g = Some (Inr ami)"
    if "main_image fuel p g start = (Some (Inr ami), w1)" for ami w1
    using main_image_created_value [OF n that] .
  show "list_all (launch_uses ami) (trace (snd (main fuel p g start)))"
    if "main_image fuel p g start = (Some (Inr ami), w1)" for ami w1
  proof -
    from that l2 have "list_all (launch_uses ami) evs2" by simp
    with list_all_launch_uses [OF e1, of ami] show ?thesis
      unfolding t by (simp add: start_def)
  qed
  show "list_all (\<lambda>e. \<not> is_run_instances e) (trace (snd (main fuel p g start)))"
    if "\<forall>ami. fst (main_image fuel p g start) \<noteq> Some (Inr ami)"
  proof -
    from that n2 have "evs2 = []" by simp
    with list_all_no_launch [OF e1] show ?thesis
      unfolding t by (simp add: start_def)
  qed
  show "map_of c ''ImageId'' = Some ami" if "effective_config g ami s = Inr c" for ami s c
    using effective_config_ImageId [OF d that] by (simp add: n)
qed

theorem image_override_bypasses_provisioning_witness:
  "distinct (map fst (sysargv_config ex_overrides)) \<and>
   map_of (sysargv_config ex_overrides) ''ImageId'' = Some (VStr ''ami-X'') \<and>
   filter is_create_image (trace (snd (main 3 ex_env ex_overrides start))) = [] \<and>
   filter is_describe_images (trace (snd (main 3 ex_env ex_overrides start))) = [] \<and>
   list_all (launch_uses (VStr ''ami-X'')) (trace (snd (main 3 ex_env ex_overrides start))) \<and>
   launch_image_ids (trace (snd (main 3 ex_env ex_overrides start))) = [Some (VStr ''ami-X'')] \<and>
   fst (main_image 3 ex_env ex_overrides start) = Some (Inr (VStr ''ami-X'')) \<and>
   distinct (map fst (sysargv_config ex_globals)) \<and>
   map_of (sysargv_config ex_globals) ''ImageId'' = None \<and>
   length (filter is_create_image (trace (snd (main 3 ex_env ex_globals start)))) = 1 \<and>
   fst (main_image 3 ex_env ex_globals start) = Some (Inr (VStr ''ami-new'')) \<and>
   (\<exists>response.
      create_image_response ex_env (region ex_globals)
        (create_image_kwargs ex_env (sourceinstance ex_globals)) = Inr response \<and>
      py_getitem response ''ImageId'' = Inr (VStr ''ami-new'')) \<and>
   list_all (launch_uses (VStr ''ami-new'')) (trace (snd (main 3 ex_env ex_globals start))) \<and>
   launch_image_ids (trace (snd (main 3 ex_env ex_globals start))) = [Some (VStr ''ami-new'')]"
proof -
  have d1: "distinct (map fst (sysargv_config ex_overrides))"
    and v: "map_of (sysargv_config ex_overrides) ''ImageId'' = Some (VStr ''ami-X'')"
    by (simp_all add: ex_overrides_def)
  have d2: "distinct (map fst (sysargv_config ex_globals))"
    and n: "map_of (sysargv_config ex_globals) ''ImageId'' = None"
    by (simp_all add: ex_globals_def)
  have s: "is_str (VStr ''ami-X'')" by (simp add: is_str_def)
  have r: "fst (main_image 3 ex_env ex_globals start) = Some (Inr (VStr ''ami-new''))"
    by (simp add: main_image_def main_wait_def create_image_def image_status_def
        ex_env_def ex_globals_def start_def pbind_def emit_def plift_def py_add_str_def
        py_getitem_def py_getitem0_def dict_get_def ebind_def Let_def numeral_3_eq_3)
  then obtain w1 where
    m: "main_image 3 ex_env ex_globals start = (Some (Inr (VStr ''ami-new'')), w1)"
    by (cases "main_image 3 ex_env ex_globals start") simp
  note run_defs = main_def main_image_def main_wait_def main_launch_def create_image_def
      image_status_def get_instance_config_def run_instance_def run_instances_kwargs_def
      effective_config_def custom_config_def modify_instance_config_def dict_merge_def
      ex_env_def start_def pbind_def emit_def plift_def py_add_str_def
      py_getitem0_def eval_defs ex_sanitised_def numeral_3_eq_3
  have l1: "launch_image_ids (trace (snd (main 3 ex_env ex_overrides start))) =
              [Some (VStr ''ami-X'')]"
    by (simp add: run_defs ex_overrides_def split: sum.splits)
  have l2: "launch_image_ids (trace (snd (main 3 ex_env ex_globals start))) =
              [Some (VStr ''ami-new'')]"
    by (simp add: run_defs split: sum.splits)
  note t1 = image_override_bypasses_provisioning [OF d1, of 3 ex_env, THEN conjunct1,
      THEN spec, THEN mp, OF v]
  note t2 = image_override_bypasses_provisioning [OF d2, of 3 ex_env, THEN conjunct2,
      THEN mp, OF n]
  from t2 m have
    p: "\<exists>response.
      create_image_response ex_env (region ex_globals)
        (create_image_kwargs ex_env (sourceinstance ex_globals)) = Inr response \<and>
      py_getitem response ''ImageId'' = Inr (VStr ''ami-new'')"
    and u: "list_all (launch_uses (VStr ''ami-new'')) (trace (snd (main 3 ex_env ex_globals start)))"
    by (elim conjE allE [of _ "VStr ''ami-new''"] allE [of _ w1]; simp only:)+
  from t1 s have o: "filter is_create_image (trace (snd (main 3 ex_env ex_overrides start))) = []"
    "filter is_describe_images (trace (snd (main 3 ex_env ex_overrides start))) = []"
    "list_all (launch_uses (VStr ''ami-X'')) (trace (snd (main 3 ex_env ex_overrides start)))"
    "fst (main_image 3 ex_env ex_overrides start) = Some (Inr (VStr ''ami-X''))"
    by (simp_all only:)
  from t2 have c: "length (filter is_create_image (trace (snd (main 3 ex_env ex_globals start)))) = 1"
    by (rule conjunct1)
  show ?thesis by (intro conjI d1 v o l1 d2 n c r p u l2)
qed

section \<open>The command line and a complete run\<close>

text \<open>
  The overrides that the script builds from its arguments are a dictionary: every key
  occurs once. This is the hypothesis of the statements about the merge.
\<close>

lemma dict_of_args_distinct:
  "distinct (map fst d) \<Longrightarrow> dict_of_args d args = Inr cfg \<Longrightarrow> distinct (map fst cfg)"
proof (induction args arbitrary: d)
  case Nil
  then show ?case by simp
next
  case (Cons arg args)
  from Cons.prems(2) obtain k v where kv: "split_eq arg = [k, v]"
    and r: "dict_of_args (dict_set d k (VStr v)) args = Inr cfg"
    by (auto split: list.splits)
  from Cons.prems(1) have "distinct (map fst (dict_set d k (VStr v)))"
    by (simp add: dict_set_def distinct_update)
  from Cons.IH [OF this r] show ?case .
qed

lemma ex_script_args:
  "dict_of_args [] [''ImageId=ami-X'', ''SubnetId=subnet-Y''] = Inr (sysargv_config ex_overrides)"
  by (simp add: ex_overrides_def dict_set_def)

lemma ex_script_bad_arg: "dict_of_args [] [''a=b=c''] = Inl ValueError"
  by simp

text \<open>
  With the example provider and no override, main returns after three status queries in
  the loop: the image is created, awaited, and the instance launched.
\<close>

lemma ex_run: "fst (main 3 ex_env ex_globals start) = Some (Inr ())"
  by (simp add: main_def main_image_def main_wait_def main_launch_def create_image_def
      image_status_def get_instance_config_def run_instance_def run_instances_kwargs_def
      effective_config_def custom_config_def modify_instance_config_def dict_merge_def
      ex_env_def start_def pbind_def emit_def plift_def py_add_str_def
      py_getitem0_def eval_defs ex_sanitised_def numeral_3_eq_3 split: sum.splits)

end
